theory Spec2Isabelle
  imports Main "HOL-Library.AList"
begin

section \<open>Destination paths (parse.go, type path)\<close>

text \<open>
  A Go slice of strings is a window on a backing array: the address of the array, a length
  and a capacity. The memory is the list of all arrays allocated so far, an address being an
  index in it. The nil slice has length and capacity 0 and no array behind it.
\<close>

type_synonym memory = "string list list"

record slice =
  arr :: nat
  len :: nat
  cap :: nat

definition nil_slice :: slice where
  "nil_slice = \<lparr>arr = 0, len = 0, cap = 0\<rparr>"

text \<open>The visible elements of a slice.\<close>

definition elems :: "memory \<Rightarrow> slice \<Rightarrow> string list" where
  "elems m s = take (len s) (m ! arr s)"

text \<open>
  A slice is well formed in a memory when its window lies inside an allocated array
  (a slice of capacity 0 has no array to speak of).
\<close>

definition slice_ok :: "memory \<Rightarrow> slice \<Rightarrow> bool" where
  "slice_ok m s \<longleftrightarrow>
     len s \<le> cap s \<and> (cap s = 0 \<or> (arr s < length m \<and> cap s \<le> length (m ! arr s)))"

text \<open>\<^verbatim>\<open>make([]string, n)\<close>: a fresh array of n empty strings, length and capacity n.\<close>

definition make_slice :: "memory \<Rightarrow> nat \<Rightarrow> memory \<times> slice" where
  "make_slice m n = (m @ [replicate n []], \<lparr>arr = length m, len = n, cap = n\<rparr>)"

text \<open>
  \<^verbatim>\<open>append(s, x)\<close>: with spare capacity the element is written into the array of s, just
  past its length; otherwise the elements move to a fresh, larger array. How much larger is
  the runtime's business: \<open>grow\<close> is its policy, and the new capacity is at least what is
  needed.
\<close>

definition append_slice :: "(nat \<Rightarrow> nat) \<Rightarrow> memory \<Rightarrow> slice \<Rightarrow> string \<Rightarrow> memory \<times> slice" where
  "append_slice grow m s x =
     (if len s < cap s
      then (m[arr s := (m ! arr s)[len s := x]], s\<lparr>len := len s + 1\<rparr>)
      else (let c = max (len s + 1) (grow (cap s))
            in (m @ [elems m s @ [x] @ replicate (c - (len s + 1)) []],
                \<lparr>arr = length m, len = len s + 1, cap = c\<rparr>)))"

text \<open>\<^verbatim>\<open>copy(dst, src)\<close>: the first min(len dst, len src) elements of src overwrite those of dst.\<close>

definition copy_slice :: "memory \<Rightarrow> slice \<Rightarrow> slice \<Rightarrow> memory" where
  "copy_slice m dst src =
     (let n = min (len dst) (len src)
      in m[arr dst := take n (elems m src) @ drop n (m ! arr dst)])"

record mpath =
  mroot :: nat
  mfields :: slice

text \<open>
  \<^verbatim>\<open>func (p path) Child(child string) path\<close>, on the memory: the new array is made first,
  then the argument of copy is evaluated (the append, which may write into the spare
  capacity of the parent's array), then the copy fills the new array.
\<close>

definition Child_mem :: "(nat \<Rightarrow> nat) \<Rightarrow> memory \<Rightarrow> mpath \<Rightarrow> string \<Rightarrow> memory \<times> mpath" where
  "Child_mem grow m p child =
     (let (m1, subfields) = make_slice m (len (mfields p) + 1);
          (m2, appended) = append_slice grow m1 (mfields p) child;
          m3 = copy_slice m2 subfields appended
      in (m3, \<lparr>mroot = mroot p, mfields = subfields\<rparr>))"

text \<open>
  The rest of the development works with the chain a path denotes: the root index and the
  list of field names.
\<close>

record path =
  root :: nat
  flds :: "string list"

definition chain :: "memory \<Rightarrow> mpath \<Rightarrow> path" where
  "chain m p = \<lparr>root = mroot p, flds = elems m (mfields p)\<rparr>"

definition Child :: "path \<Rightarrow> string \<Rightarrow> path" where
  "Child p child = \<lparr>root = root p, flds = flds p @ [child]\<rparr>"

section \<open>Failures\<close>

text \<open>
  A Go \<^verbatim>\<open>error\<close> returned by the package is one of the two sentinels or a message built
  with \<^verbatim>\<open>fmt.Errorf\<close> / \<^verbatim>\<open>errors.New\<close>. A panic is not an error value: it unwinds
  through every caller, so it is kept apart as \<open>Panic\<close>.
\<close>

datatype failure = ErrHelp | ErrVersion | Errorf string | Panic string

definition message :: "failure \<Rightarrow> string" where
  "message e = (case e of ErrHelp \<Rightarrow> ''help requested by user''
                | ErrVersion \<Rightarrow> ''version requested by user''
                | Errorf m \<Rightarrow> m | Panic m \<Rightarrow> m)"

text \<open>\<^verbatim>\<open>fmt.Errorf(prefix + "%v", err)\<close>; a panic passes through untouched.\<close>

definition wrap :: "string \<Rightarrow> failure \<Rightarrow> failure" where
  "wrap pre e = (case e of Panic m \<Rightarrow> Panic m | _ \<Rightarrow> Errorf (pre @ message e))"

section \<open>Types and values as reflection sees them\<close>

datatype kind =
    KInvalid | KBool | KInt | KInt8 | KInt16 | KInt32 | KInt64
  | KUint | KUint8 | KUint16 | KUint32 | KUint64 | KUintptr
  | KFloat32 | KFloat64 | KComplex64 | KComplex128
  | KArray | KChan | KFunc | KInterface | KMap | KPtr | KSlice | KString | KStruct
  | KUnsafePointer

text \<open>
  A \<^verbatim>\<open>reflect.Type\<close>: a pointer, a slice, a struct with its name and fields, or any other
  type, of which only its printed form and its kind matter here (\<open>Basic\<close>; its kind is
  never \<open>KPtr\<close>, \<open>KSlice\<close> or \<open>KStruct\<close>). A struct field has a name, a type, its tag as
  the key/value pairs \<^verbatim>\<open>StructTag.Lookup\<close> reads, and the embedded flag.
\<close>

datatype gotype =
    Basic string kind
  | PtrT gotype
  | SliceT gotype
  | StructT string "field list"
and field = Field (Name: string) (Type: gotype) (Tag: "(string \<times> string) list") (Anonymous: bool)

fun Kind :: "gotype \<Rightarrow> kind" where
  "Kind (Basic n k) = k"
| "Kind (PtrT t) = KPtr"
| "Kind (SliceT t) = KSlice"
| "Kind (StructT n fs) = KStruct"

text \<open>\<^verbatim>\<open>Type.Name()\<close>: the name of a defined type, empty for pointer and slice types.\<close>

fun type_Name :: "gotype \<Rightarrow> string" where
  "type_Name (Basic n k) = n"
| "type_Name (StructT n fs) = n"
| "type_Name t = []"

text \<open>
  \<^verbatim>\<open>Type.String()\<close>, without the package qualifier Go prints before the name of a defined
  type (\<^verbatim>\<open>arg.Inner\<close> is \<open>Inner\<close> here).
\<close>

fun type_String :: "gotype \<Rightarrow> string" where
  "type_String (Basic n k) = n"
| "type_String (PtrT t) = ''*'' @ type_String t"
| "type_String (SliceT t) = ''[]'' @ type_String t"
| "type_String (StructT n fs) = n"

definition kind_String :: "kind \<Rightarrow> string" where
  "kind_String k = (case k of
      KInvalid \<Rightarrow> ''invalid'' | KBool \<Rightarrow> ''bool'' | KInt \<Rightarrow> ''int'' | KInt8 \<Rightarrow> ''int8''
    | KInt16 \<Rightarrow> ''int16'' | KInt32 \<Rightarrow> ''int32'' | KInt64 \<Rightarrow> ''int64'' | KUint \<Rightarrow> ''uint''
    | KUint8 \<Rightarrow> ''uint8'' | KUint16 \<Rightarrow> ''uint16'' | KUint32 \<Rightarrow> ''uint32''
    | KUint64 \<Rightarrow> ''uint64'' | KUintptr \<Rightarrow> ''uintptr'' | KFloat32 \<Rightarrow> ''float32''
    | KFloat64 \<Rightarrow> ''float64'' | KComplex64 \<Rightarrow> ''complex64'' | KComplex128 \<Rightarrow> ''complex128''
    | KArray \<Rightarrow> ''array'' | KChan \<Rightarrow> ''chan'' | KFunc \<Rightarrow> ''func''
    | KInterface \<Rightarrow> ''interface'' | KMap \<Rightarrow> ''map'' | KPtr \<Rightarrow> ''ptr'' | KSlice \<Rightarrow> ''slice''
    | KString \<Rightarrow> ''string'' | KStruct \<Rightarrow> ''struct'' | KUnsafePointer \<Rightarrow> ''unsafe.Pointer'')"

text \<open>
  The contents of a variable: a pointer is nil or holds its pointee, a slice is nil or holds
  its elements, a struct holds its fields by name. \<open>VOther\<close> stands for the contents of the
  kinds that are opaque here (floating point, durations and the like).
\<close>

datatype gval =
    VBool bool
  | VInt int
  | VString string
  | VOther string
  | VPtr "gval option"
  | VSlice "gval list option"
  | VStruct "(string \<times> gval) list"

definition zero_basic :: "kind \<Rightarrow> gval" where
  "zero_basic k =
     (if k = KBool then VBool False
      else if k = KString then VString []
      else if k \<in> {KInt, KInt8, KInt16, KInt32, KInt64,
                    KUint, KUint8, KUint16, KUint32, KUint64, KUintptr} then VInt 0
      else VOther [])"

text \<open>The zero value of a type, as \<^verbatim>\<open>reflect.New\<close> allocates it.\<close>

fun zero :: "gotype \<Rightarrow> gval" and zero_fields :: "field list \<Rightarrow> (string \<times> gval) list" where
  "zero (Basic n k) = zero_basic k"
| "zero (PtrT t) = VPtr None"
| "zero (SliceT t) = VSlice None"
| "zero (StructT n fs) = VStruct (zero_fields fs)"
| "zero_fields [] = []"
| "zero_fields (Field n t tg an # fs) = (n, zero t) # zero_fields fs"

text \<open>
  A \<^verbatim>\<open>reflect.Value\<close>: the zero Value, or a typed variable with its contents and two of
  its flags: addressable, and read-only (reached through an unexported field).
\<close>

datatype rvalue = NoValue | RV gotype gval bool bool

fun CanSet :: "rvalue \<Rightarrow> bool" where
  "CanSet NoValue = False"
| "CanSet (RV t v a ro) = (a \<and> \<not> ro)"

text \<open>A field name is exported when it starts with an upper-case letter (ASCII here).\<close>

definition isUpper :: "char \<Rightarrow> bool" where
  "isUpper c \<longleftrightarrow> 65 \<le> (of_char c :: nat) \<and> (of_char c :: nat) \<le> 90"

definition exported :: "string \<Rightarrow> bool" where
  "exported n = (case n of [] \<Rightarrow> False | c # _ \<Rightarrow> isUpper c)"

text \<open>
  \<^verbatim>\<open>Value.FieldByName\<close> on a struct variable: the type and contents of the field of that
  name declared by the struct itself. Fields promoted from an embedded struct are not
  looked up by this model; neither is anything but a struct (reflection panics there).
\<close>

definition FieldByName :: "gotype \<Rightarrow> gval \<Rightarrow> string \<Rightarrow> (gotype \<times> gval) option" where
  "FieldByName t v f =
     (case (t, v) of
        (StructT n tfs, VStruct vfs) \<Rightarrow>
          (case (find (\<lambda>x. Name x = f) tfs, map_of vfs f) of
             (Some fd, Some fv) \<Rightarrow> Some (Type fd, fv)
           | _ \<Rightarrow> None)
      | _ \<Rightarrow> None)"

section \<open>The world outside the package\<close>

text \<open>
  What parse.go and reflect.go call and do not define: the environment of the process, the
  CSV reader, the method sets of the destination types (does a type implement
  \<^verbatim>\<open>ArgUnmarshaler\<close>, \<^verbatim>\<open>encoding.TextUnmarshaler\<close>), and the go-scalar library. They are
  parameters of the model. The two parsers return the new contents of the variable they
  were given, or fail.
\<close>

record lib =
  LookupEnv :: "string \<Rightarrow> string option"
  csv_Read :: "string \<Rightarrow> string + string list"
  implementsArg :: "gotype \<Rightarrow> bool"
  implementsText :: "gotype \<Rightarrow> bool"
  scalar_CanParse :: "gotype \<Rightarrow> bool"
  UnmarshalArg :: "gotype \<Rightarrow> gval \<Rightarrow> string \<Rightarrow> failure + gval"
  scalar_ParseValue :: "rvalue \<Rightarrow> string \<Rightarrow> failure + gval"

section \<open>Resolving a path (Parser.val)\<close>

text \<open>
  \<open>val_from\<close> is the loop of \<^verbatim>\<open>Parser.val\<close> over the field names: a pointer is followed
  (a nil pointer ends the walk with the zero Value), then the field is looked up; a field
  that is not found is the panic of the source.
\<close>

definition field_step :: "gotype \<Rightarrow> gval \<Rightarrow> bool \<Rightarrow> bool \<Rightarrow> string \<Rightarrow> failure + rvalue" where
  "field_step t v a ro f =
     (case FieldByName t v f of
        None \<Rightarrow> Inl (Panic (''error resolving path: no field named '' @ f))
      | Some (ft, fv) \<Rightarrow> Inr (RV ft fv a (ro \<or> \<not> exported f)))"

fun val_from :: "rvalue \<Rightarrow> string list \<Rightarrow> failure + rvalue" where
  "val_from rv [] = Inr rv"
| "val_from NoValue (f # fs) = Inl (Panic ''FieldByName of the zero Value'')"
| "val_from (RV t v a ro) (f # fs) =
     (case (t, v) of
        (PtrT t', VPtr None) \<Rightarrow> Inr NoValue
      | (PtrT t', VPtr (Some v')) \<Rightarrow>
          (case field_step t' v' True ro f of Inl e \<Rightarrow> Inl e | Inr rv \<Rightarrow> val_from rv fs)
      | _ \<Rightarrow>
          (case field_step t v a ro f of Inl e \<Rightarrow> Inl e | Inr rv \<Rightarrow> val_from rv fs))"

type_synonym roots = "(gotype \<times> gval) list"

definition val :: "roots \<Rightarrow> path \<Rightarrow> failure + rvalue" where
  "val rs dest =
     (if root dest < length rs
      then (case rs ! root dest of (t, v) \<Rightarrow> val_from (RV t v False False) (flds dest))
      else Inl (Panic ''index out of range''))"

text \<open>
  Writing through a \<^verbatim>\<open>reflect.Value\<close> changes the variable it stands for. \<open>store\<close> puts new
  contents at the place the walk of \<open>val\<close> reaches.
\<close>

fun store_from :: "gval \<Rightarrow> string list \<Rightarrow> gval \<Rightarrow> gval" where
  "store_from v [] x = x"
| "store_from v (f # fs) x =
     (case v of
        VPtr (Some (VStruct vfs)) \<Rightarrow>
          (case map_of vfs f of
             None \<Rightarrow> v
           | Some w \<Rightarrow> VPtr (Some (VStruct (AList.update f (store_from w fs x) vfs))))
      | VStruct vfs \<Rightarrow>
          (case map_of vfs f of
             None \<Rightarrow> v
           | Some w \<Rightarrow> VStruct (AList.update f (store_from w fs x) vfs))
      | _ \<Rightarrow> v)"

definition store :: "roots \<Rightarrow> path \<Rightarrow> gval \<Rightarrow> roots" where
  "store rs dest x =
     (if root dest < length rs
      then rs[root dest := (fst (rs ! root dest), store_from (snd (rs ! root dest)) (flds dest) x)]
      else rs)"

section \<open>Coercion (parseValue, setSlice, nextIsNumeric)\<close>

fun Elem :: "gotype \<Rightarrow> gotype" where
  "Elem (PtrT t) = t"
| "Elem (SliceT t) = t"
| "Elem t = t"

text \<open>
  \<^verbatim>\<open>parseValue\<close>: a nil pointer is allocated first when it can be set (otherwise the value
  goes to go-scalar as it is); \<^verbatim>\<open>v.Interface()\<close> panics on the zero Value and on a
  read-only one; a type whose method set has \<^verbatim>\<open>UnmarshalArg\<close> parses itself, on the value
  or, when addressable, on its address; go-scalar does the rest.
\<close>

definition parseValue :: "lib \<Rightarrow> rvalue \<Rightarrow> string \<Rightarrow> failure + gval" where
  "parseValue L rv s =
     (case rv of
        NoValue \<Rightarrow> Inl (Panic ''Interface of the zero Value'')
      | RV t v a ro \<Rightarrow>
          if Kind t = KPtr \<and> v = VPtr None \<and> \<not> CanSet rv then scalar_ParseValue L rv s
          else
            (let v1 = (if Kind t = KPtr \<and> v = VPtr None then VPtr (Some (zero (Elem t))) else v)
             in if ro then Inl (Panic ''Interface of a value obtained using an unexported field'')
                else if implementsArg L t then UnmarshalArg L t v1 s
                else if a \<and> implementsArg L (PtrT t) then UnmarshalArg L (PtrT t) v1 s
                else scalar_ParseValue L (RV t v1 a ro) s))"

definition numeric :: "kind \<Rightarrow> bool" where
  "numeric k \<longleftrightarrow> k \<in> {KInt, KInt8, KInt16, KInt32, KInt64, KFloat32, KFloat64,
                        KUint, KUint8, KUint16, KUint32, KUint64, KUintptr}"

text \<open>\<^verbatim>\<open>reflect.New(t)\<close>: a pointer, not addressable itself, to a fresh zero variable.\<close>

definition reflect_New :: "gotype \<Rightarrow> rvalue" where
  "reflect_New t = RV (PtrT t) (VPtr (Some (zero t))) False False"

fun nextIsNumeric :: "lib \<Rightarrow> gotype \<Rightarrow> string \<Rightarrow> bool" where
  "nextIsNumeric L (PtrT t) s = nextIsNumeric L t s"
| "nextIsNumeric L (Basic n k) s =
     (if numeric k
      then (case parseValue L (reflect_New (Basic n k)) s of Inl err \<Rightarrow> False | Inr x \<Rightarrow> True)
      else False)"
| "nextIsNumeric L t s = False"

text \<open>
  The loop of \<^verbatim>\<open>setSlice\<close>: each string is parsed into a fresh element (the variable
  \<^verbatim>\<open>reflect.New(elem).Elem()\<close>, addressable and settable) and appended; the first failure
  ends it.
\<close>

fun append_values :: "lib \<Rightarrow> gotype \<Rightarrow> bool \<Rightarrow> gval list option \<Rightarrow> string list \<Rightarrow> failure + gval" where
  "append_values L elem ptr xs [] = Inr (VSlice xs)"
| "append_values L elem ptr xs (s # ss) =
     (case parseValue L (RV elem (zero elem) True False) s of
        Inl e \<Rightarrow> Inl e
      | Inr x \<Rightarrow>
          append_values L elem ptr
            (Some ((case xs of None \<Rightarrow> [] | Some l \<Rightarrow> l) @ [if ptr then VPtr (Some x) else x])) ss)"

text \<open>
  \<^verbatim>\<open>setSlice\<close> returns the new contents of the destination. A destination that is not a
  slice variable is outside the model and gives \<open>Panic\<close> here: reflection panics on it
  at \<^verbatim>\<open>SetLen\<close> or \<^verbatim>\<open>Append\<close>, except that for a nil pointer to a slice (a type
  \<^verbatim>\<open>canParse\<close> accepts as multiple) the source returns nil when there are no values and the
  error of go-scalar otherwise.
\<close>

definition setSlice :: "lib \<Rightarrow> rvalue \<Rightarrow> string list \<Rightarrow> bool \<Rightarrow> failure + gval" where
  "setSlice L dest values trunc =
     (if \<not> CanSet dest then Inl (Errorf ''field is not writable'')
      else (case dest of
              RV (SliceT et) (VSlice xs) a ro \<Rightarrow>
                (let ptr = (Kind et = KPtr \<and> \<not> implementsText L et \<and> \<not> implementsArg L et);
                     elem = (if ptr then Elem et else et);
                     xs1 = (if trunc \<and> xs \<noteq> None then Some [] else xs)
                 in append_values L elem ptr xs1 values)
            | _ \<Rightarrow> Inl (Panic ''reflect: call of SetLen or Append on a value that is no slice'')))"

section \<open>Strings\<close>

definition HasPrefix :: "string \<Rightarrow> string \<Rightarrow> bool" where
  "HasPrefix s pre \<longleftrightarrow> take (length pre) s = pre"

definition TrimLeft :: "string \<Rightarrow> string \<Rightarrow> string" where
  "TrimLeft s cutset = dropWhile (\<lambda>c. c \<in> set cutset) s"

text \<open>\<^verbatim>\<open>strings.Index(s, sep)\<close> for a separator of one character; \<open>None\<close> is the -1 of Go.\<close>

fun Index :: "string \<Rightarrow> char \<Rightarrow> nat option" where
  "Index [] c = None"
| "Index (x # xs) c = (if x = c then Some 0 else map_option Suc (Index xs c))"

text \<open>
  The idiom \<^verbatim>\<open>if pos := strings.Index(s, sep); pos != -1 { value = s[pos+1:]; s = s[:pos] }\<close>
  with \<^verbatim>\<open>value\<close> empty before it: the pair of the new \<^verbatim>\<open>s\<close> and \<^verbatim>\<open>value\<close>.
\<close>

definition cut_at :: "string \<Rightarrow> char \<Rightarrow> string \<times> string" where
  "cut_at s c = (case Index s c of None \<Rightarrow> (s, []) | Some pos \<Rightarrow> (take pos s, drop (pos + 1) s))"

fun Join :: "string list \<Rightarrow> string \<Rightarrow> string" where
  "Join [] sep = []"
| "Join [x] sep = x"
| "Join (x # y # ys) sep = x @ sep @ Join (y # ys) sep"

text \<open>\<^verbatim>\<open>isFlag\<close>: "-v" and "--user" are flags, "-" and "--" are not.\<close>

definition isFlag :: "string \<Rightarrow> bool" where
  "isFlag s \<longleftrightarrow> HasPrefix s ''-'' \<and> TrimLeft s ''-'' \<noteq> []"

section \<open>Options and commands\<close>

record spec =
  dest :: path
  stype :: gotype
  long :: string
  short :: string
  multiple :: bool
  required :: bool
  positional :: bool
  separate :: bool
  help_text :: string
  env :: string
  boolean :: bool

text \<open>
  A command with its options and subcommands. The \<^verbatim>\<open>parent\<close> pointer of the source is
  written by the builder and read nowhere in parse.go; it is left out.
\<close>

datatype command =
  Command (cmd_name: string) (cmd_help: string) (cmd_dest: path)
          (cmd_specs: "spec list") (cmd_subcommands: "command list")

fun findOption :: "spec list \<Rightarrow> string \<Rightarrow> spec option" where
  "findOption [] n = None"
| "findOption (sp # sps) n =
     (if positional sp then findOption sps n
      else if long sp = n \<or> short sp = n then Some sp
      else findOption sps n)"

fun findSubcommand :: "command list \<Rightarrow> string \<Rightarrow> command option" where
  "findSubcommand [] n = None"
| "findSubcommand (c # cs) n = (if cmd_name c = n then Some c else findSubcommand cs n)"

record Parser =
  cmd :: command
  roots :: roots

section \<open>The interpreter (captureEnvVars, process, Parse)\<close>

text \<open>
  The presence map \<^verbatim>\<open>map[*spec]bool\<close> only ever receives \<^verbatim>\<open>true\<close>: it is the set of the
  options marked. The source keys it by pointer; here an option is identified by its
  contents. The two agree as long as the options in scope are pairwise different. They
  differ when two options in scope have the same contents (a field of an embedded struct
  and a field of the same name and tag that shadows it): \<^verbatim>\<open>findOption\<close> then marks the
  first pointer only, and here both are marked (the seeding from the environment marks
  every pointer in the source too). The theorems below in which a flag is what marks an
  option before the check of the required options assume the options in scope
  \<open>distinct\<close>.
\<close>

text \<open>Resolve a destination, run a setter on it, put the new contents there.\<close>

definition assign :: "roots \<Rightarrow> path \<Rightarrow> (rvalue \<Rightarrow> failure + gval) \<Rightarrow> failure + roots" where
  "assign rs d setter =
     (case val rs d of
        Inl e \<Rightarrow> Inl e
      | Inr rv \<Rightarrow> (case setter rv of Inl e \<Rightarrow> Inl e | Inr x \<Rightarrow> Inr (store rs d x)))"

definition lift_err :: "(failure \<Rightarrow> failure) \<Rightarrow> failure + 'a \<Rightarrow> failure + 'a" where
  "lift_err f r = (case r of Inl e \<Rightarrow> Inl (f e) | Inr x \<Rightarrow> Inr x)"

fun captureEnvVars :: "lib \<Rightarrow> roots \<Rightarrow> spec list \<Rightarrow> spec set \<Rightarrow> failure + roots \<times> spec set" where
  "captureEnvVars L rs [] wasPresent = Inr (rs, wasPresent)"
| "captureEnvVars L rs (sp # sps) wasPresent =
     (if env sp = [] then captureEnvVars L rs sps wasPresent
      else case LookupEnv L (env sp) of
        None \<Rightarrow> captureEnvVars L rs sps wasPresent
      | Some value \<Rightarrow>
          if multiple sp then
            (case csv_Read L value of
               Inl err \<Rightarrow>
                 Inl (Errorf (''error reading a CSV string from environment variable '' @ env sp
                              @ '' with multiple values: '' @ err))
             | Inr values \<Rightarrow>
                 (case lift_err (wrap (''error processing environment variable '' @ env sp
                                       @ '' with multiple values: ''))
                         (assign rs (dest sp) (\<lambda>rv. setSlice L rv values (\<not> separate sp))) of
                    Inl e \<Rightarrow> Inl e
                  | Inr rs' \<Rightarrow> captureEnvVars L rs' sps (insert sp wasPresent)))
          else
            (case lift_err (wrap (''error processing environment variable '' @ env sp @ '': ''))
                    (assign rs (dest sp) (\<lambda>rv. parseValue L rv value)) of
               Inl e \<Rightarrow> Inl e
             | Inr rs' \<Rightarrow> captureEnvVars L rs' sps (insert sp wasPresent)))"

text \<open>The local variables of \<^verbatim>\<open>process\<close>, and the destinations as written so far.\<close>

record session =
  dests :: roots
  curCmd :: command
  specs :: "spec list"
  wasPresent :: "spec set"
  allpositional :: bool
  positionals :: "string list"

text \<open>
  Entering a subcommand: its destination field is pointed at a new struct
  (\<^verbatim>\<open>v.Set(reflect.New(v.Type().Elem()))\<close>, a panic unless the field is a settable pointer),
  its options join the allowed ones, its environment variables are captured.
\<close>

definition instantiate :: "roots \<Rightarrow> path \<Rightarrow> failure + roots" where
  "instantiate rs d =
     (case val rs d of
        Inl e \<Rightarrow> Inl e
      | Inr NoValue \<Rightarrow> Inl (Panic ''Type of the zero Value'')
      | Inr (RV t v a ro) \<Rightarrow>
          (case t of
             PtrT et \<Rightarrow>
               if a \<and> \<not> ro then Inr (store rs d (VPtr (Some (zero et))))
               else Inl (Panic ''reflect: Set on a value that cannot be set'')
           | _ \<Rightarrow> Inl (Panic ''reflect: the subcommand field is no pointer'')))"

definition enter :: "lib \<Rightarrow> session \<Rightarrow> command \<Rightarrow> failure + session" where
  "enter L s subcmd =
     (case instantiate (dests s) (cmd_dest subcmd) of
        Inl e \<Rightarrow> Inl e
      | Inr rs \<Rightarrow>
          (case captureEnvVars L rs (cmd_specs subcmd) (wasPresent s) of
             Inl e \<Rightarrow> Inl e
           | Inr (rs', wp) \<Rightarrow>
               Inr (s\<lparr>dests := rs', specs := specs s @ cmd_specs subcmd,
                       wasPresent := wp, curCmd := subcmd\<rparr>)))"

text \<open>
  The values of one occurrence of a multi-value flag that has no inline value: the tokens
  that follow it, up to the first flag or the end, only one of them when \<^verbatim>\<open>separate\<close> is
  set. The index \<^verbatim>\<open>i\<close> advances by one for each.
\<close>

fun collect :: "bool \<Rightarrow> string list \<Rightarrow> string list" where
  "collect sep [] = []"
| "collect sep (a # rest) =
     (if isFlag a then []
      else if sep then [a]
      else a # collect sep rest)"

text \<open>
  One turn of the loop of \<^verbatim>\<open>process\<close> on the token \<open>arg = args[i]\<close>, with the tokens
  after it: the new state and by how much the body advanced \<^verbatim>\<open>i\<close> (the tokens it took as
  values), or the failure returned. \<open>flag\<close> is the part of the body that follows the
  check for the help and version flags.
\<close>

definition flag :: "lib \<Rightarrow> session \<Rightarrow> string \<Rightarrow> string list \<Rightarrow> failure + session \<times> nat" where
  "flag L s arg rest =
     (case cut_at (TrimLeft arg ''-'') CHR ''='' of (opt, value) \<Rightarrow>
        (case findOption (specs s) opt of
           None \<Rightarrow> Inl (Errorf (''unknown argument '' @ arg))
         | Some sp \<Rightarrow>
             (let s1 = s\<lparr>wasPresent := insert sp (wasPresent s)\<rparr>
              in if multiple sp then
                   (let values = (if value = [] then collect (separate sp) rest else [value]);
                        n = (if value = [] then length values else 0)
                    in case lift_err (wrap (''error processing '' @ arg @ '': ''))
                              (assign (dests s1) (dest sp)
                                 (\<lambda>rv. setSlice L rv values (\<not> separate sp))) of
                         Inl e \<Rightarrow> Inl e
                       | Inr rs \<Rightarrow> Inr (s1\<lparr>dests := rs\<rparr>, n))
                 else
                   (let value1 = (if boolean sp \<and> value = [] then ''true'' else value)
                    in case (if value1 = [] then
                               (case rest of
                                  [] \<Rightarrow> Inl (Errorf (''missing value for '' @ arg))
                                | nxt # rest' \<Rightarrow>
                                    if \<not> nextIsNumeric L (stype sp) nxt \<and> isFlag nxt
                                    then Inl (Errorf (''missing value for '' @ arg))
                                    else Inr (nxt, 1))
                             else Inr (value1, 0)) of
                         Inl e \<Rightarrow> Inl e
                       | Inr (value2, n) \<Rightarrow>
                           (case lift_err (wrap (''error processing '' @ arg @ '': ''))
                                   (assign (dests s1) (dest sp) (\<lambda>rv. parseValue L rv value2)) of
                              Inl e \<Rightarrow> Inl e
                            | Inr rs \<Rightarrow> Inr (s1\<lparr>dests := rs\<rparr>, n))))))"

definition turn :: "lib \<Rightarrow> session \<Rightarrow> string \<Rightarrow> string list \<Rightarrow> failure + session \<times> nat" where
  "turn L s arg rest =
     (if arg = ''--'' then Inr (s\<lparr>allpositional := True\<rparr>, 0)
      else if \<not> isFlag arg \<or> allpositional s then
        (if cmd_subcommands (curCmd s) = []
         then Inr (s\<lparr>positionals := positionals s @ [arg]\<rparr>, 0)
         else (case findSubcommand (cmd_subcommands (curCmd s)) arg of
                 None \<Rightarrow> Inl (Errorf (''invalid subcommand: '' @ arg))
               | Some subcmd \<Rightarrow>
                   (case enter L s subcmd of Inl e \<Rightarrow> Inl e | Inr s' \<Rightarrow> Inr (s', 0))))
      else if arg = ''-h'' \<or> arg = ''--help'' then Inl ErrHelp
      else if arg = ''--version'' then Inl ErrVersion
      else flag L s arg rest)"

text \<open>The loop over the tokens: after a turn, \<^verbatim>\<open>i\<close> moves past the tokens taken.\<close>

fun loop :: "lib \<Rightarrow> session \<Rightarrow> string list \<Rightarrow> failure + session" where
  "loop L s [] = Inr s"
| "loop L s (arg # rest) =
     (case turn L s arg rest of
        Inl e \<Rightarrow> Inl e
      | Inr (s', n) \<Rightarrow> loop L s' (drop n rest))"

text \<open>
  The positionals buffered by the loop go to the positional options in scope, in order: a
  single-value one takes the first, a multi-value one takes all that are left.
\<close>

fun drain :: "lib \<Rightarrow> spec list \<Rightarrow> session \<Rightarrow> failure + session" where
  "drain L [] s = Inr s"
| "drain L (sp # sps) s =
     (if \<not> positional sp then drain L sps s
      else if positionals s = [] then Inr s
      else
        (let s1 = s\<lparr>wasPresent := insert sp (wasPresent s)\<rparr>
         in if multiple sp then
              (case lift_err (wrap (''error processing '' @ long sp @ '': ''))
                      (assign (dests s1) (dest sp) (\<lambda>rv. setSlice L rv (positionals s1) True)) of
                 Inl e \<Rightarrow> Inl e
               | Inr rs \<Rightarrow> drain L sps (s1\<lparr>dests := rs, positionals := []\<rparr>))
            else
              (case lift_err (wrap (''error processing '' @ long sp @ '': ''))
                      (assign (dests s1) (dest sp) (\<lambda>rv. parseValue L rv (hd (positionals s1)))) of
                 Inl e \<Rightarrow> Inl e
               | Inr rs \<Rightarrow> drain L sps (s1\<lparr>dests := rs, positionals := tl (positionals s1)\<rparr>))))"

text \<open>The first required option in scope that was not marked present, if any.\<close>

fun check_required :: "spec list \<Rightarrow> spec set \<Rightarrow> failure option" where
  "check_required [] wp = None"
| "check_required (sp # sps) wp =
     (if required sp \<and> sp \<notin> wp
      then Some (Errorf ((if positional sp then long sp else ''--'' @ long sp) @ '' is required''))
      else check_required sps wp)"

text \<open>
  \<^verbatim>\<open>Parser.process\<close>. The result is the state at the end: the destinations as written,
  the last command entered (\<^verbatim>\<open>p.lastCmd\<close>), the options in scope and the presence map.
  What a failing run has written before it fails is not kept.
\<close>

definition process :: "lib \<Rightarrow> Parser \<Rightarrow> string list \<Rightarrow> failure + session" where
  "process L p args =
     (case captureEnvVars L (roots p) (cmd_specs (cmd p)) {} of
        Inl e \<Rightarrow> Inl e
      | Inr (rs, wp) \<Rightarrow>
          (case loop L \<lparr>dests = rs, curCmd = cmd p, specs = cmd_specs (cmd p), wasPresent = wp,
                        allpositional = False, positionals = []\<rparr> args of
             Inl e \<Rightarrow> Inl e
           | Inr s \<Rightarrow>
               (case drain L (specs s) s of
                  Inl e \<Rightarrow> Inl e
                | Inr s' \<Rightarrow>
                    (case positionals s' of
                       extra # _ \<Rightarrow>
                         Inl (Errorf (''too many positional arguments at '' @ [CHR 0x27] @ extra
                                      @ [CHR 0x27]))
                     | [] \<Rightarrow>
                         (case check_required (specs s') (wasPresent s') of
                            Some e \<Rightarrow> Inl e
                          | None \<Rightarrow> Inr s')))))"

text \<open>
  The scan of \<^verbatim>\<open>Parse\<close> after a failure: a help flag met before the first "--" turns the
  failure into \<open>ErrHelp\<close>.
\<close>

fun supersede :: "string list \<Rightarrow> failure \<Rightarrow> failure" where
  "supersede [] err = err"
| "supersede (arg # args) err =
     (if arg = ''-h'' \<or> arg = ''--help'' then ErrHelp
      else if arg = ''--'' then err
      else supersede args err)"

definition Parse :: "lib \<Rightarrow> Parser \<Rightarrow> string list \<Rightarrow> failure + session" where
  "Parse L p args =
     (case process L p args of
        Inl (Panic m) \<Rightarrow> Inl (Panic m)
      | Inl err \<Rightarrow> Inl (supersede args err)
      | Inr s \<Rightarrow> Inr s)"

section \<open>Admissible field types (reflect.go)\<close>

definition canParseWrapped :: "lib \<Rightarrow> gotype \<Rightarrow> bool" where
  "canParseWrapped L t \<longleftrightarrow> implementsArg L t \<or> implementsArg L (PtrT t) \<or> scalar_CanParse L t"

definition isBoolean :: "lib \<Rightarrow> gotype \<Rightarrow> bool" where
  "isBoolean L t =
     (if implementsArg L t then False
      else if implementsText L t then False
      else if Kind t = KBool then True
      else if Kind t = KPtr \<and> Kind (Elem t) = KBool then True
      else False)"

text \<open>\<^verbatim>\<open>canParse\<close> returns (parseable, boolean, multiple).\<close>

definition canParse :: "lib \<Rightarrow> gotype \<Rightarrow> bool \<times> bool \<times> bool" where
  "canParse L t =
     (if canParseWrapped L t then (True, isBoolean L t, False)
      else
        (let t1 = (if Kind t = KPtr then Elem t else t);
             multiple = (Kind t1 = KSlice);
             t2 = (if Kind t1 = KSlice then Elem t1 else t1)
         in if canParseWrapped L t2 then (True, isBoolean L t2, multiple)
            else
              (let t3 = (if Kind t2 = KPtr then Elem t2 else t2)
               in if canParseWrapped L t3 then (True, isBoolean L t3, multiple)
                  else (False, False, False))))"

section \<open>The schema builder (cmdFromStruct)\<close>

text \<open>Case mapping and splitting, on ASCII.\<close>

definition isLower :: "char \<Rightarrow> bool" where
  "isLower c \<longleftrightarrow> 97 \<le> (of_char c :: nat) \<and> (of_char c :: nat) \<le> 122"

definition ToLower :: "string \<Rightarrow> string" where
  "ToLower s = map (\<lambda>c. if isUpper c then char_of (of_char c + (32 :: nat)) else c) s"

definition ToUpper :: "string \<Rightarrow> string" where
  "ToUpper s = map (\<lambda>c. if isLower c then char_of (of_char c - (32 :: nat)) else c) s"

fun Split :: "string \<Rightarrow> char \<Rightarrow> string list" where
  "Split [] c = [[]]"
| "Split (x # xs) c =
     (if x = c then [] # Split xs c
      else (case Split xs c of [] \<Rightarrow> [[x]] | y # ys \<Rightarrow> (x # y) # ys))"

text \<open>\<^verbatim>\<open>StructTag.Get\<close>: the value of a key of the tag, empty when the key is absent.\<close>

definition Get :: "(string \<times> string) list \<Rightarrow> string \<Rightarrow> string" where
  "Get tg k = (case map_of tg k of None \<Rightarrow> [] | Some v \<Rightarrow> v)"

definition path_String :: "path \<Rightarrow> string" where
  "path_String p = (if flds p = [] then ''args'' else ''args.'' @ Join (flds p) ''.'')"

text \<open>
  The command under construction and the error list of one call of \<^verbatim>\<open>cmdFromStruct\<close>:
  what the visitor closure appends to.
\<close>

record building =
  b_specs :: "spec list"
  b_subcommands :: "command list"
  errs :: "string list"

definition add_err :: "building \<Rightarrow> string \<Rightarrow> building" where
  "add_err b e = b\<lparr>errs := errs b @ [e]\<rparr>"

fun set_help :: "command \<Rightarrow> string \<Rightarrow> command" where
  "set_help (Command n h d sps subs) h' = Command n h' d sps subs"

text \<open>
  \<open>cmdFromStruct\<close> and \<open>walkFields\<close> are the functions of the source; \<open>visit\<close> is the
  closure given to \<^verbatim>\<open>walkFields\<close>, its result the pair of the boolean it returns (expand
  the field) and the state it leaves; \<open>tag_keys\<close> is its loop over the comma-separated
  keys of the tag, which gives \<open>None\<close> where the closure returns from inside the loop and
  otherwise the option as the keys have set it with the \<^verbatim>\<open>isSubcommand\<close> flag.
  \<open>walkFields\<close> runs over the fields of the struct type named \<open>owner\<close>.
\<close>

function cmdFromStruct :: "lib \<Rightarrow> string \<Rightarrow> path \<Rightarrow> gotype \<Rightarrow> failure + command"
  and walkFields :: "lib \<Rightarrow> path \<Rightarrow> string \<Rightarrow> field list \<Rightarrow> building \<Rightarrow> building"
  and visit :: "lib \<Rightarrow> path \<Rightarrow> string \<Rightarrow> field \<Rightarrow> building \<Rightarrow> bool \<times> building"
  and tag_keys :: "lib \<Rightarrow> path \<Rightarrow> string \<Rightarrow> field \<Rightarrow> string list \<Rightarrow> spec \<Rightarrow> bool \<Rightarrow> building
                   \<Rightarrow> (spec \<times> bool) option \<times> building"
where
  "cmdFromStruct L name dst t =
     (case t of
        PtrT t' \<Rightarrow>
          (case t' of
             StructT n fs \<Rightarrow>
               (let b = walkFields L dst n fs \<lparr>b_specs = [], b_subcommands = [], errs = []\<rparr>
                in if errs b \<noteq> [] then Inl (Errorf (Join (errs b) [CHR 0x0A]))
                   else if (\<exists>sp \<in> set (b_specs b). positional sp) \<and> b_subcommands b \<noteq> []
                   then Inl (Errorf (path_String dst
                                     @ '' cannot have both subcommands and positional arguments''))
                   else Inr (Command name [] dst (b_specs b) (b_subcommands b)))
           | _ \<Rightarrow>
               Inl (Errorf (''subcommands must be pointers to structs but '' @ path_String dst
                            @ '' is a pointer to '' @ kind_String (Kind t'))))
      | _ \<Rightarrow>
          Inl (Errorf (''subcommands must be pointers to structs but '' @ path_String dst
                       @ '' is a '' @ kind_String (Kind t))))"
| "walkFields L dst owner [] b = b"
| "walkFields L dst owner (f # fs) b =
     (case visit L dst owner f b of
        (expand, b1) \<Rightarrow>
          walkFields L dst owner fs
            (case Type f of
               StructT n' fs' \<Rightarrow> if expand then walkFields L dst n' fs' b1 else b1
             | _ \<Rightarrow> b1))"
| "visit L dst owner f b =
     (let tag = Get (Tag f) ''arg''
      in if tag = ''-'' then (False, b)
         else if Anonymous f \<and> Kind (Type f) = KStruct then (True, b)
         else
           (let subdest = Child dst (Name f);
                sp0 = \<lparr>dest = subdest, stype = Type f, long = ToLower (Name f), short = [],
                       multiple = False, required = False, positional = False,
                       separate = False, help_text = Get (Tag f) ''help'', env = [],
                       boolean = False\<rparr>
            in case (if tag \<noteq> [] then tag_keys L dst owner f (Split tag CHR '','') sp0 False b
                     else (Some (sp0, False), b)) of
                 (None, b1) \<Rightarrow> (False, b1)
               | (Some (sp, isSubcommand), b1) \<Rightarrow>
                   if \<not> isSubcommand then
                     (case canParse L (Type f) of
                        (parseable, bo, mu) \<Rightarrow>
                          (let b2 = b1\<lparr>b_specs := b_specs b1 @ [sp\<lparr>boolean := bo, multiple := mu\<rparr>]\<rparr>
                           in if \<not> parseable
                              then (False, add_err b2 (owner @ ''.'' @ Name f @ '': ''
                                                       @ type_String (Type f)
                                                       @ '' fields are not supported''))
                              else (False, b2)))
                   else (False, b1)))"
| "tag_keys L dst owner f [] sp isSubcommand b = (Some (sp, isSubcommand), b)"
| "tag_keys L dst owner f (k # ks) sp isSubcommand b =
     (case cut_at (TrimLeft k '' '') CHR '':'' of (key, value) \<Rightarrow>
        if HasPrefix key ''---'' then
          tag_keys L dst owner f ks sp isSubcommand
            (add_err b (owner @ ''.'' @ Name f @ '': too many hyphens''))
        else if HasPrefix key ''--'' then
          tag_keys L dst owner f ks (sp\<lparr>long := drop 2 key\<rparr>) isSubcommand b
        else if HasPrefix key ''-'' then
          (if length key \<noteq> 2
           then (None, add_err b (owner @ ''.'' @ Name f
                                  @ '': short arguments must be one character only''))
           else tag_keys L dst owner f ks (sp\<lparr>short := drop 1 key\<rparr>) isSubcommand b)
        else if key = ''required'' then
          tag_keys L dst owner f ks (sp\<lparr>required := True\<rparr>) isSubcommand b
        else if key = ''positional'' then
          tag_keys L dst owner f ks (sp\<lparr>positional := True\<rparr>) isSubcommand b
        else if key = ''separate'' then
          tag_keys L dst owner f ks (sp\<lparr>separate := True\<rparr>) isSubcommand b
        else if key = ''help'' then
          tag_keys L dst owner f ks (sp\<lparr>help_text := value\<rparr>) isSubcommand b
        else if key = ''env'' then
          tag_keys L dst owner f ks
            (sp\<lparr>env := (if value \<noteq> [] then value else ToUpper (Name f))\<rparr>) isSubcommand b
        else if key = ''subcommand'' then
          (case cmdFromStruct L (if value = [] then ToLower (Name f) else value)
                  (Child dst (Name f)) (Type f) of
             Inl err \<Rightarrow> (None, add_err b (message err))
           | Inr subcmd \<Rightarrow>
               tag_keys L dst owner f ks sp True
                 (b\<lparr>b_subcommands := b_subcommands b @ [set_help subcmd (Get (Tag f) ''help'')]\<rparr>))
        else (None, add_err b (''unrecognized tag '' @ [CHR 0x27] @ key @ [CHR 0x27]
                               @ '' on field '' @ Get (Tag f) ''arg'')))"
  by pat_completeness auto
termination cmdFromStruct
proof -
  have sz: "size (Type f) < size f" for f
    by (cases f) simp
  show ?thesis
    apply (relation "inv_image (less_than <*lex*> less_than)
       (\<lambda>x. case x of
           Inl (Inl (L, name, dst, t)) \<Rightarrow> (size t, 0)
         | Inl (Inr (L, dst, owner, fs, b)) \<Rightarrow> (size_list size fs, 0)
         | Inr (Inl (L, dst, owner, f, b)) \<Rightarrow> (size f, Suc (length (Split (Get (Tag f) ''arg'') CHR '','')))
         | Inr (Inr (L, dst, owner, f, ks, sp, isSub, b)) \<Rightarrow> (size f, length ks))")
    subgoal by (intro wf_inv_image wf_lex_prod wf_less_than)
    subgoal by simp
    subgoal by simp
    subgoal for L dst owner f using sz [of f] by simp
    apply (simp_all add: sz)
    done
qed

declare cmdFromStruct.simps [simp del] visit.simps [simp del]

text \<open>
  \<^verbatim>\<open>NewParser\<close>, with the program name already chosen: each destination (its type and the
  variable behind the pointer given) must be a pointer, or the source panics; the options
  and subcommands of each are appended to the root command.
\<close>

fun add_dests :: "lib \<Rightarrow> string \<Rightarrow> nat \<Rightarrow> roots \<Rightarrow> command \<Rightarrow> failure + command" where
  "add_dests L name i [] c = Inr c"
| "add_dests L name i ((t, v) # ds) c =
     (if Kind t \<noteq> KPtr
      then Inl (Panic (type_String t @ '' is not a pointer (did you forget an ampersand?)''))
      else (case cmdFromStruct L name \<lparr>root = i, flds = []\<rparr> t of
              Inl e \<Rightarrow> Inl e
            | Inr c' \<Rightarrow>
                add_dests L name (i + 1) ds
                  (Command (cmd_name c) (cmd_help c) (cmd_dest c)
                     (cmd_specs c @ cmd_specs c') (cmd_subcommands c @ cmd_subcommands c'))))"

definition NewParser :: "lib \<Rightarrow> string \<Rightarrow> roots \<Rightarrow> failure + Parser" where
  "NewParser L name ds =
     (case add_dests L name 0 ds (Command name [] \<lparr>root = 0, flds = []\<rparr> [] []) of
        Inl e \<Rightarrow> Inl e
      | Inr c \<Rightarrow> Inr \<lparr>cmd = c, roots = ds\<rparr>)"

section \<open>A sample world\<close>

text \<open>
  To run the model on concrete command lines the parameters need values. This world has
  no custom unmarshalers and, for go-scalar, strings, the booleans "true" and "false" and
  decimal integers with an optional sign.
\<close>

fun digits :: "string \<Rightarrow> nat \<Rightarrow> nat option" where
  "digits [] acc = Some acc"
| "digits (c # cs) acc =
     (if 48 \<le> (of_char c :: nat) \<and> (of_char c :: nat) \<le> 57
      then digits cs (10 * acc + (of_char c - 48))
      else None)"

definition sample_int :: "string \<Rightarrow> failure + gval" where
  "sample_int s =
     (case s of
        [] \<Rightarrow> Inl (Errorf ''invalid syntax'')
      | c # cs \<Rightarrow>
          (if c = CHR ''-'' \<and> cs \<noteq> [] then
             (case digits cs 0 of None \<Rightarrow> Inl (Errorf ''invalid syntax'')
              | Some n \<Rightarrow> Inr (VInt (- int n)))
           else if c = CHR ''+'' \<and> cs \<noteq> [] then
             (case digits cs 0 of None \<Rightarrow> Inl (Errorf ''invalid syntax'')
              | Some n \<Rightarrow> Inr (VInt (int n)))
           else
             (case digits s 0 of None \<Rightarrow> Inl (Errorf ''invalid syntax'')
              | Some n \<Rightarrow> Inr (VInt (int n)))))"

definition sample_scalar :: "kind \<Rightarrow> string \<Rightarrow> failure + gval" where
  "sample_scalar k s =
     (if k = KString then Inr (VString s)
      else if k = KBool then
        (if s = ''true'' then Inr (VBool True)
         else if s = ''false'' then Inr (VBool False)
         else Inl (Errorf ''invalid syntax''))
      else if k = KInt then sample_int s
      else Inl (Errorf ''unsupported''))"

definition sample_ParseValue :: "rvalue \<Rightarrow> string \<Rightarrow> failure + gval" where
  "sample_ParseValue rv s =
     (case rv of
        RV (Basic n k) v a ro \<Rightarrow> sample_scalar k s
      | RV (PtrT (Basic n k)) v a ro \<Rightarrow>
          (case sample_scalar k s of Inl e \<Rightarrow> Inl e | Inr x \<Rightarrow> Inr (VPtr (Some x)))
      | _ \<Rightarrow> Inl (Errorf ''unsupported''))"

definition sample_CanParse :: "gotype \<Rightarrow> bool" where
  "sample_CanParse t =
     (case t of
        Basic n k \<Rightarrow> k \<in> {KString, KBool, KInt}
      | PtrT (Basic n k) \<Rightarrow> k \<in> {KString, KBool, KInt}
      | _ \<Rightarrow> False)"

definition sample_lib :: "(string \<times> string) list \<Rightarrow> lib" where
  "sample_lib environ =
     \<lparr>LookupEnv = map_of environ,
      csv_Read = (\<lambda>s. Inr (Split s CHR '','')),
      implementsArg = (\<lambda>t. False),
      implementsText = (\<lambda>t. False),
      scalar_CanParse = sample_CanParse,
      UnmarshalArg = (\<lambda>t v s. Inl (Errorf ''no UnmarshalArg'')),
      scalar_ParseValue = sample_ParseValue\<rparr>"

definition int_type :: gotype where
  "int_type = Basic ''int'' KInt"

definition string_type :: gotype where
  "string_type = Basic ''string'' KString"

text \<open>
  A destination in the style of the package's documentation:
  \<^verbatim>\<open>
  type ServeCmd struct { Port int `arg:"required,env:PORT"` }
  type Args struct {
      Serve *ServeCmd `arg:"subcommand"`
      Foo   int       `arg:"env:FOO"`
      Count int
      Tag   []string  `arg:"separate"`
      Names []string
  }
  \<close>
\<close>

definition ServeCmd :: gotype where
  "ServeCmd = StructT ''ServeCmd''
     [Field ''Port'' int_type [(''arg'', ''required,env:PORT'')] False]"

definition Args :: gotype where
  "Args = StructT ''Args''
     [Field ''Serve'' (PtrT ServeCmd) [(''arg'', ''subcommand'')] False,
      Field ''Foo'' int_type [(''arg'', ''env:FOO'')] False,
      Field ''Count'' int_type [] False,
      Field ''Tag'' (SliceT string_type) [(''arg'', ''separate'')] False,
      Field ''Names'' (SliceT string_type) [] False]"

text \<open>The variable \<^verbatim>\<open>args\<close> with \<^verbatim>\<open>Names\<close> preset to the given defaults.\<close>

definition args_var :: "string list \<Rightarrow> gval" where
  "args_var names =
     VPtr (Some (VStruct
       [(''Serve'', VPtr None), (''Foo'', VInt 0), (''Count'', VInt 0), (''Tag'', VSlice None),
        (''Names'', VSlice (if names = [] then None else Some (map VString names)))]))"

text \<open>The options and the subcommand \<^verbatim>\<open>NewParser\<close> builds for \<^verbatim>\<open>&args\<close>, written out.\<close>

definition foo_spec :: spec where
  "foo_spec = \<lparr>dest = \<lparr>root = 0, flds = [''Foo'']\<rparr>, stype = int_type, long = ''foo'',
     short = [], multiple = False, required = False, positional = False, separate = False,
     help_text = [], env = ''FOO'', boolean = False\<rparr>"

definition count_spec :: spec where
  "count_spec = \<lparr>dest = \<lparr>root = 0, flds = [''Count'']\<rparr>, stype = int_type, long = ''count'',
     short = [], multiple = False, required = False, positional = False, separate = False,
     help_text = [], env = [], boolean = False\<rparr>"

definition tag_spec :: spec where
  "tag_spec = \<lparr>dest = \<lparr>root = 0, flds = [''Tag'']\<rparr>, stype = SliceT string_type,
     long = ''tag'', short = [], multiple = True, required = False, positional = False,
     separate = True, help_text = [], env = [], boolean = False\<rparr>"

definition names_spec :: spec where
  "names_spec = \<lparr>dest = \<lparr>root = 0, flds = [''Names'']\<rparr>, stype = SliceT string_type,
     long = ''names'', short = [], multiple = True, required = False, positional = False,
     separate = False, help_text = [], env = [], boolean = False\<rparr>"

definition port_spec :: spec where
  "port_spec = \<lparr>dest = \<lparr>root = 0, flds = [''Serve'', ''Port'']\<rparr>, stype = int_type,
     long = ''port'', short = [], multiple = False, required = True, positional = False,
     separate = False, help_text = [], env = ''PORT'', boolean = False\<rparr>"

definition serve_cmd :: command where
  "serve_cmd = Command ''serve'' [] \<lparr>root = 0, flds = [''Serve'']\<rparr> [port_spec] []"

definition args_parser :: "string list \<Rightarrow> Parser" where
  "args_parser names =
     \<lparr>cmd = Command ''prog'' [] \<lparr>root = 0, flds = []\<rparr>
              [foo_spec, count_spec, tag_spec, names_spec] [serve_cmd],
      roots = [(PtrT Args, args_var names)]\<rparr>"

text \<open>The state in which \<^verbatim>\<open>process\<close> starts its loop for this parser in an empty environment.\<close>

definition args_session :: "string list \<Rightarrow> session" where
  "args_session names =
     \<lparr>dests = roots (args_parser names), curCmd = cmd (args_parser names),
      specs = cmd_specs (cmd (args_parser names)), wasPresent = {},
      allpositional = False, positionals = []\<rparr>"

text \<open>
  Two more destinations: one that declares a positional argument beside a subcommand, and
  one with a misspelt tag key on one field and an unsupported type on the next.
  \<^verbatim>\<open>
  type Mixed struct {
      Serve *ServeCmd `arg:"subcommand"`
      Input string    `arg:"positional"`
  }
  type Faulty struct {
      Verbose bool     `arg:"requierd"`
      Out     chan int
  }
  \<close>
\<close>

definition Mixed :: gotype where
  "Mixed = StructT ''Mixed''
     [Field ''Serve'' (PtrT ServeCmd) [(''arg'', ''subcommand'')] False,
      Field ''Input'' string_type [(''arg'', ''positional'')] False]"

definition Faulty :: gotype where
  "Faulty = StructT ''Faulty''
     [Field ''Verbose'' (Basic ''bool'' KBool) [(''arg'', ''requierd'')] False,
      Field ''Out'' (Basic ''chan int'' KChan) [] False]"

section \<open>Observations\<close>

text \<open>The elements of a slice; a nil slice has none.\<close>

definition contents :: "gval list option \<Rightarrow> gval list" where
  "contents xs = (case xs of None \<Rightarrow> [] | Some l \<Rightarrow> l)"

text \<open>
  What a destination holds after \<^verbatim>\<open>Parse\<close>, and whether an option was marked present, or
  the failure of \<^verbatim>\<open>Parse\<close>.
\<close>

definition value_after :: "lib \<Rightarrow> Parser \<Rightarrow> string list \<Rightarrow> path \<Rightarrow> failure + rvalue" where
  "value_after L p args d =
     (case Parse L p args of Inl e \<Rightarrow> Inl e | Inr s \<Rightarrow> val (dests s) d)"

definition present_after :: "lib \<Rightarrow> Parser \<Rightarrow> string list \<Rightarrow> spec \<Rightarrow> failure + bool" where
  "present_after L p args sp =
     (case Parse L p args of Inl e \<Rightarrow> Inl e | Inr s \<Rightarrow> Inr (sp \<in> wasPresent s))"

section \<open>Predicates of the specification\<close>

text \<open>
  The invariant of the command tree: no command has a positional option and a
  subcommand, at any level.
\<close>

fun exclusive :: "command \<Rightarrow> bool" where
  "exclusive (Command n h d sps subs) \<longleftrightarrow>
     \<not> ((\<exists>sp \<in> set sps. positional sp) \<and> subs \<noteq> []) \<and> (\<forall>c \<in> set subs. exclusive c)"

definition subs_exclusive :: "building \<Rightarrow> bool" where
  "subs_exclusive b \<longleftrightarrow> (\<forall>c \<in> set (b_subcommands b). exclusive c)"

text \<open>The type behind any number of pointers: the scalar kind an option is parsed as.\<close>

fun pointee :: "gotype \<Rightarrow> gotype" where
  "pointee (PtrT t) = pointee t"
| "pointee (Basic n k) = Basic n k"
| "pointee (SliceT t) = SliceT t"
| "pointee (StructT n fs) = StructT n fs"

text \<open>The error list of the second state is that of the first with errors added at the end.\<close>

definition extends :: "building \<Rightarrow> building \<Rightarrow> bool" where
  "extends b b' \<longleftrightarrow> (\<exists>es. errs b' = errs b @ es)"

text \<open>\<^verbatim>\<open>strings.Contains\<close>: a message names a field when the field's name occurs in it.\<close>

fun Contains :: "string \<Rightarrow> string \<Rightarrow> bool" where
  "Contains [] sub \<longleftrightarrow> sub = []"
| "Contains (c # cs) sub \<longleftrightarrow> HasPrefix (c # cs) sub \<or> Contains cs sub"

section \<open>Properties of paths\<close>

lemma Child_mem_effect:
  assumes "slice_ok m (mfields p)" and "Child_mem grow m p a = (m', c)"
  shows "chain m' c = Child (chain m p) a"
    and "chain m' p = chain m p"
    and "slice_ok m' (mfields p)"
    and "slice_ok m' (mfields c)"
    and "arr (mfields c) = length m"
    and "cap (mfields c) = len (mfields c)"
    and "length m < length m'"
    and "\<forall>q. slice_ok m q \<and> cap q \<noteq> 0
             \<and> (len (mfields p) < cap (mfields p) \<and> arr q = arr (mfields p)
                  \<longrightarrow> len q \<le> len (mfields p))
           \<longrightarrow> elems m' q = elems m q"
  using assms
  by (auto simp: Child_mem_def make_slice_def append_slice_def copy_slice_def chain_def Child_def
      slice_ok_def elems_def Let_def nth_append nth_list_update take_Suc_conv_app_nth
      split: if_splits prod.splits)

text \<open>
  C9. For every path p and field name, \<^verbatim>\<open>p.Child(name)\<close> returns a path with the root index
  of p and the chain of p with the name appended, and the chain of p is as it was. The
  chain of the child lives in an array of its own: a second child of the same parent has
  another array, and making it leaves the first child's chain, and the parent's, as they
  were. This holds even when the parent's slice has spare capacity, into which the
  \<^verbatim>\<open>append\<close> inside \<^verbatim>\<open>Child\<close> writes.
\<close>

theorem Child_mem_fresh_chain:
  assumes ok: "slice_ok m (mfields p)"
    and first: "Child_mem grow m p a = (m1, c1)"
    and second: "Child_mem grow m1 p b = (m2, c2)"
  shows "chain m1 c1 = Child (chain m p) a \<and> chain m1 p = chain m p
       \<and> chain m2 c2 = Child (chain m p) b \<and> chain m2 p = chain m p
       \<and> chain m2 c1 = Child (chain m p) a
       \<and> arr (mfields c1) \<noteq> arr (mfields c2)
       \<and> (cap (mfields p) \<noteq> 0 \<longrightarrow>
            arr (mfields c1) \<noteq> arr (mfields p) \<and> arr (mfields c2) \<noteq> arr (mfields p))"
proof -
  note e1 = Child_mem_effect [OF ok first]
  note e2 = Child_mem_effect [OF e1(3) second]
  have c1: "chain m1 c1 = Child (chain m p) a" and p1: "chain m1 p = chain m p"
    by (rule e1)+
  have c2: "chain m2 c2 = Child (chain m p) b" and p2: "chain m2 p = chain m p"
    using e2(1,2) p1 by simp_all
  have len1: "len (mfields c1) = Suc (len (mfields p))"
    using first by (auto simp: Child_mem_def make_slice_def Let_def split: prod.splits)
  have "len (mfields p) < cap (mfields p) \<and> arr (mfields c1) = arr (mfields p) \<longrightarrow> False"
    using e1(5) ok by (auto simp: slice_ok_def)
  with e2(8) e1(4) e1(6) len1 have "elems m2 (mfields c1) = elems m1 (mfields c1)"
    by auto
  then have keep: "chain m2 c1 = Child (chain m p) a"
    using c1 by (simp add: chain_def)
  have diff: "arr (mfields c1) \<noteq> arr (mfields c2)"
    using e1(5,7) e2(5) by simp
  have par: "cap (mfields p) \<noteq> 0 \<longrightarrow>
               arr (mfields c1) \<noteq> arr (mfields p) \<and> arr (mfields c2) \<noteq> arr (mfields p)"
    using ok e1(5,7) e2(5) by (auto simp: slice_ok_def)
  show ?thesis using c1 p1 c2 p2 keep diff par by blast
qed

theorem Child_mem_fresh_chain_witness:
  "slice_ok [[''Serve'', ''junk'']] \<lparr>arr = 0, len = 1, cap = 2\<rparr>
   \<and> chain (fst (Child_mem (\<lambda>n. 2 * n) [[''Serve'', ''junk'']]
               \<lparr>mroot = 0, mfields = \<lparr>arr = 0, len = 1, cap = 2\<rparr>\<rparr> ''Port''))
        \<lparr>mroot = 0, mfields = \<lparr>arr = 0, len = 1, cap = 2\<rparr>\<rparr>
     = \<lparr>root = 0, flds = [''Serve'']\<rparr>
   \<and> chain (fst (Child_mem (\<lambda>n. 2 * n) [[''Serve'', ''junk'']]
               \<lparr>mroot = 0, mfields = \<lparr>arr = 0, len = 1, cap = 2\<rparr>\<rparr> ''Port''))
            (snd (Child_mem (\<lambda>n. 2 * n) [[''Serve'', ''junk'']]
               \<lparr>mroot = 0, mfields = \<lparr>arr = 0, len = 1, cap = 2\<rparr>\<rparr> ''Port''))
     = \<lparr>root = 0, flds = [''Serve'', ''Port'']\<rparr>"
proof -
  let ?m = "[[''Serve'', ''junk'']]"
  let ?p = "\<lparr>mroot = 0, mfields = \<lparr>arr = 0, len = 1, cap = 2\<rparr>\<rparr>"
  have ok: "slice_ok ?m (mfields ?p)"
    by (simp add: slice_ok_def)
  obtain m1 c1 where first: "Child_mem (\<lambda>n. 2 * n) ?m ?p ''Port'' = (m1, c1)"
    by (cases "Child_mem (\<lambda>n. 2 * n) ?m ?p ''Port''")
  obtain m2 c2 where second: "Child_mem (\<lambda>n. 2 * n) m1 ?p ''Host'' = (m2, c2)"
    by (cases "Child_mem (\<lambda>n. 2 * n) m1 ?p ''Host''")
  from Child_mem_fresh_chain [OF ok first second]
  have "chain m1 c1 = Child (chain ?m ?p) ''Port''" and "chain m1 ?p = chain ?m ?p"
    by blast+
  then show ?thesis using ok first
    by (simp add: chain_def Child_def elems_def)
qed

section \<open>Properties of the interpreter\<close>

lemma NewParser_args:
  "NewParser (sample_lib environ) ''prog'' [(PtrT Args, args_var names)] = Inr (args_parser names)"
  by code_simp

lemma supersede_eq:
  "supersede args err =
     (if \<exists>a \<in> set (takeWhile (\<lambda>a. a \<noteq> ''--'') args). a = ''-h'' \<or> a = ''--help''
      then ErrHelp else err)"
  by (induction args) auto

text \<open>
  C4. When \<^verbatim>\<open>process\<close> fails with an error (not a panic) and a token equal to "-h" or
  "--help" stands in the token stream before the first "--", \<^verbatim>\<open>Parse\<close> returns
  \<open>ErrHelp\<close> in place of that error; when no such token stands before the first "--"
  (the only ones come after it, or there is none), \<^verbatim>\<open>Parse\<close> returns the error of
  \<^verbatim>\<open>process\<close>.
\<close>

theorem Parse_help_supersedes:
  assumes "process L p args = Inl err" and "\<forall>m. err \<noteq> Panic m"
  shows "Parse L p args =
           (if \<exists>a \<in> set (takeWhile (\<lambda>a. a \<noteq> ''--'') args). a = ''-h'' \<or> a = ''--help''
            then Inl ErrHelp else Inl err)"
  using assms by (cases err) (simp_all add: Parse_def supersede_eq)

theorem Parse_help_supersedes_witness:
  "process (sample_lib []) (args_parser []) [''--nope'', ''-h'', ''--'']
     = Inl (Errorf ''unknown argument --nope'')
   \<and> Parse (sample_lib []) (args_parser []) [''--nope'', ''-h'', ''--''] = Inl ErrHelp
   \<and> process (sample_lib []) (args_parser []) [''--nope'', ''--'', ''-h'']
     = Inl (Errorf ''unknown argument --nope'')
   \<and> Parse (sample_lib []) (args_parser []) [''--nope'', ''--'', ''-h'']
     = Inl (Errorf ''unknown argument --nope'')"
proof -
  have a: "process (sample_lib []) (args_parser []) [''--nope'', ''-h'', ''--'']
             = Inl (Errorf ''unknown argument --nope'')"
    by code_simp
  have b: "process (sample_lib []) (args_parser []) [''--nope'', ''--'', ''-h'']
             = Inl (Errorf ''unknown argument --nope'')"
    by code_simp
  have np: "\<forall>m. Errorf ''unknown argument --nope'' \<noteq> Panic m"
    by simp
  show ?thesis
    using a b Parse_help_supersedes [OF a np] Parse_help_supersedes [OF b np] by simp
qed

section \<open>Properties of the schema builder\<close>

lemma exclusive_set_help [simp]: "exclusive (set_help c h) = exclusive c"
  by (cases c) simp

lemma subs_exclusive_add_err [simp]: "subs_exclusive (add_err b e) = subs_exclusive b"
  by (simp add: subs_exclusive_def add_err_def)

lemma subs_exclusive_specs [simp]: "subs_exclusive (b\<lparr>b_specs := x\<rparr>) = subs_exclusive b"
  by (simp add: subs_exclusive_def)

lemma subs_exclusive_sub [simp]:
  "subs_exclusive (b\<lparr>b_subcommands := b_subcommands b @ [c]\<rparr>) \<longleftrightarrow> subs_exclusive b \<and> exclusive c"
  by (auto simp add: subs_exclusive_def)

lemma built_exclusive:
  "(\<forall>c. cmdFromStruct L name dst t = Inr c \<longrightarrow> exclusive c)"
  "subs_exclusive b \<longrightarrow> subs_exclusive (walkFields L dst owner fs b)"
  "subs_exclusive b' \<longrightarrow> subs_exclusive (snd (visit L dst owner f b'))"
  "subs_exclusive b'' \<longrightarrow> subs_exclusive (snd (tag_keys L dst owner f' ks sp isSub b''))"
proof (induction L name dst t and L dst owner fs b and L dst owner f b' and L dst owner f' ks sp isSub b''
    rule: cmdFromStruct_walkFields_visit_tag_keys.induct)
  case (1 L name dst t)
  show ?case
  proof (intro allI impI)
    fix c assume ok: "cmdFromStruct L name dst t = Inr c"
    then obtain n fs where t: "t = PtrT (StructT n fs)"
      by (auto simp: cmdFromStruct.simps [of L name dst t] split: gotype.splits)
    let ?b = "walkFields L dst n fs \<lparr>b_specs = [], b_subcommands = [], errs = []\<rparr>"
    have "subs_exclusive ?b"
      using 1 [OF t refl] by (simp add: subs_exclusive_def)
    moreover have "c = Command name [] dst (b_specs ?b) (b_subcommands ?b)"
      and "\<not> ((\<exists>sp \<in> set (b_specs ?b). positional sp) \<and> b_subcommands ?b \<noteq> [])"
      using ok unfolding t cmdFromStruct.simps [of L name dst "PtrT (StructT n fs)"]
      by (simp_all add: Let_def split: if_splits)
    ultimately show "exclusive c"
      by (simp add: subs_exclusive_def)
  qed
next
  case (2 L dst owner b)
  then show ?case by simp
next
  case (3 L dst owner f fs b)
  show ?case
  proof
    assume inv: "subs_exclusive b"
    obtain expand b1 where v: "visit L dst owner f b = (expand, b1)"
      by (cases "visit L dst owner f b")
    have b1: "subs_exclusive b1"
      using 3(1) inv v by simp
    let ?b2 = "case Type f of StructT n' fs' \<Rightarrow> if expand then walkFields L dst n' fs' b1 else b1
               | _ \<Rightarrow> b1"
    have b2: "subs_exclusive ?b2"
      using 3(2) [OF v [symmetric]] b1 by (auto split: gotype.splits)
    show "subs_exclusive (walkFields L dst owner (f # fs) b)"
      using 3(3) [OF v [symmetric]] b2 by (simp add: v)
  qed
next
  case (4 L dst owner f b)
  show ?case
  proof
    assume inv: "subs_exclusive b"
    show "subs_exclusive (snd (visit L dst owner f b))"
    proof (cases "Get (Tag f) ''arg'' = ''-'' \<or> (Anonymous f \<and> Kind (Type f) = KStruct)
                   \<or> Get (Tag f) ''arg'' = []")
      case True
      then show ?thesis
        using inv by (auto simp: visit.simps [of L dst owner f b] Let_def split: prod.splits)
    next
      case False
      then have "subs_exclusive (snd (tag_keys L dst owner f (Split (Get (Tag f) ''arg'') CHR '','')
          \<lparr>dest = Child dst (Name f), stype = Type f, long = ToLower (Name f), short = [],
              multiple = False, required = False, positional = False,
              separate = False, help_text = Get (Tag f) ''help'', env = [],
              boolean = False\<rparr> False b))"
        using 4 [OF refl _ _ refl refl] inv by blast
      with False show ?thesis
        by (auto simp: visit.simps [of L dst owner f b] Let_def split: prod.splits option.splits)
    qed
  qed
next
  case (5 L dst owner f sp isSubcommand b)
  then show ?case by simp
next
  case (6 L dst owner f k ks sp isSubcommand b)
  obtain key v where kv: "cut_at (TrimLeft k '' '') CHR '':'' = (key, v)"
    by (cases "cut_at (TrimLeft k '' '') CHR '':''")
  note IH = 6 [OF kv [symmetric]]
  show ?case
  proof
    assume inv: "subs_exclusive b"
    show "subs_exclusive (snd (tag_keys L dst owner f (k # ks) sp isSubcommand b))"
      using IH inv by (simp add: kv split: sum.splits)
  qed
qed

text \<open>
  C7. A struct that, at one level, yields a positional option and a subcommand makes
  \<^verbatim>\<open>cmdFromStruct\<close> return an error; so does such a level anywhere below, since the
  failure of a subcommand's build is an error of the level above. Hence every command a
  successful \<^verbatim>\<open>cmdFromStruct\<close> returns is exclusive: at no level of its tree does a command
  have both a positional option and subcommands.
\<close>

theorem cmdFromStruct_exclusive:
  "(cmdFromStruct L name dst t = Inr c \<longrightarrow> exclusive c)
   \<and> ((\<exists>sp \<in> set (b_specs (walkFields L dst n fs \<lparr>b_specs = [], b_subcommands = [], errs = []\<rparr>)).
          positional sp)
        \<and> b_subcommands (walkFields L dst n fs \<lparr>b_specs = [], b_subcommands = [], errs = []\<rparr>) \<noteq> []
      \<longrightarrow> (\<exists>msg. cmdFromStruct L name dst (PtrT (StructT n fs)) = Inl (Errorf msg)))"
  using built_exclusive(1) [of L name dst t]
  by (simp add: cmdFromStruct.simps [of L name dst "PtrT (StructT n fs)"] Let_def)

theorem cmdFromStruct_exclusive_witness:
  "cmdFromStruct (sample_lib []) ''prog'' \<lparr>root = 0, flds = []\<rparr> (PtrT Args)
     = Inr (cmd (args_parser []))
   \<and> exclusive (cmd (args_parser []))
   \<and> (\<exists>msg. cmdFromStruct (sample_lib []) ''prog'' \<lparr>root = 0, flds = []\<rparr> (PtrT Mixed)
              = Inl (Errorf msg))"
proof -
  let ?L = "sample_lib []" and ?d = "\<lparr>root = 0, flds = []\<rparr>"
  let ?fs = "[Field ''Serve'' (PtrT ServeCmd) [(''arg'', ''subcommand'')] False,
              Field ''Input'' string_type [(''arg'', ''positional'')] False]"
  let ?b = "walkFields ?L ?d ''Mixed'' ?fs \<lparr>b_specs = [], b_subcommands = [], errs = []\<rparr>"
  have a: "cmdFromStruct ?L ''prog'' ?d (PtrT Args) = Inr (cmd (args_parser []))"
    by code_simp
  have b: "(\<exists>sp \<in> set (b_specs ?b). positional sp) \<and> b_subcommands ?b \<noteq> []"
    by code_simp
  from cmdFromStruct_exclusive [of ?L "''prog''" ?d "PtrT Args" "cmd (args_parser [])" "''Mixed''" ?fs]
    a b
  show ?thesis
    by (simp add: Mixed_def)
qed

lemma extends_refl [simp]: "extends b b"
  by (simp add: extends_def)

lemma extends_add_err [simp]: "extends a b \<Longrightarrow> extends a (add_err b e)"
  by (auto simp: extends_def add_err_def)

lemma extends_specs [simp]: "extends a (b\<lparr>b_specs := x\<rparr>) = extends a b"
  by (simp add: extends_def)

lemma extends_subs [simp]: "extends a (b\<lparr>b_subcommands := y\<rparr>) = extends a b"
  by (simp add: extends_def)

lemma errs_kept_aux:
  "\<exists>c msg. cmdFromStruct L name dst t = Inr c \<or> cmdFromStruct L name dst t = Inl (Errorf msg)"
  "extends a b \<longrightarrow> extends a (walkFields L dst owner fs b)"
  "extends a b' \<longrightarrow> extends a (snd (visit L dst owner f b'))"
  "extends a b'' \<longrightarrow> extends a (snd (tag_keys L dst owner f' ks sp isSub b''))"
proof (induction L name dst t and L dst owner fs b and L dst owner f b' and L dst owner f' ks sp isSub b''
    rule: cmdFromStruct_walkFields_visit_tag_keys.induct)
  case (1 L name dst t)
  show ?case
    by (simp add: cmdFromStruct.simps [of L name dst t] Let_def split: gotype.splits)
next
  case (2 L dst owner b)
  then show ?case by simp
next
  case (3 L dst owner f fs b)
  show ?case
  proof
    assume inv: "extends a b"
    obtain expand b1 where v: "visit L dst owner f b = (expand, b1)"
      by (cases "visit L dst owner f b")
    have b1: "extends a b1"
      using 3(1) inv v by simp
    let ?b2 = "case Type f of StructT n' fs' \<Rightarrow> if expand then walkFields L dst n' fs' b1 else b1
               | _ \<Rightarrow> b1"
    have b2: "extends a ?b2"
      using 3(2) [OF v [symmetric]] b1 by (auto split: gotype.splits)
    show "extends a (walkFields L dst owner (f # fs) b)"
      using 3(3) [OF v [symmetric]] b2 by (simp add: v)
  qed
next
  case (4 L dst owner f b)
  show ?case
  proof
    assume inv: "extends a b"
    show "extends a (snd (visit L dst owner f b))"
    proof (cases "Get (Tag f) ''arg'' = ''-'' \<or> (Anonymous f \<and> Kind (Type f) = KStruct)
                   \<or> Get (Tag f) ''arg'' = []")
      case True
      then show ?thesis
        using inv by (auto simp: visit.simps [of L dst owner f b] Let_def split: prod.splits)
    next
      case False
      then have "extends a (snd (tag_keys L dst owner f (Split (Get (Tag f) ''arg'') CHR '','')
          \<lparr>dest = Child dst (Name f), stype = Type f, long = ToLower (Name f), short = [],
              multiple = False, required = False, positional = False,
              separate = False, help_text = Get (Tag f) ''help'', env = [],
              boolean = False\<rparr> False b))"
        using 4 [OF refl _ _ refl refl] inv by blast
      with False show ?thesis
        by (auto simp: visit.simps [of L dst owner f b] Let_def split: prod.splits option.splits)
    qed
  qed
next
  case (5 L dst owner f sp isSubcommand b)
  then show ?case by simp
next
  case (6 L dst owner f k ks sp isSubcommand b)
  obtain key v where kv: "cut_at (TrimLeft k '' '') CHR '':'' = (key, v)"
    by (cases "cut_at (TrimLeft k '' '') CHR '':''")
  note IH = 6 [OF kv [symmetric]]
  show ?case
  proof
    assume inv: "extends a b"
    show "extends a (snd (tag_keys L dst owner f (k # ks) sp isSubcommand b))"
      using IH inv by (simp add: kv split: sum.splits)
  qed
qed

lemma walkFields_keeps_errs: "\<exists>es. errs (walkFields L dst owner fs b) = errs b @ es"
  using errs_kept_aux(2) [of b b L dst owner fs] by (simp add: extends_def)

text \<open>
  C8. The builder keeps every error of a level (\<open>walkFields_keeps_errs\<close>) and returns them
  joined, but the combined error does not name every offending field: on the struct
  \<^verbatim>\<open>Faulty\<close>, whose field \<^verbatim>\<open>Verbose\<close> has an unrecognized tag key and whose field
  \<^verbatim>\<open>Out\<close> has an unsupported type, the error returned has a line for each field, and the
  line for \<^verbatim>\<open>Verbose\<close> prints the tag in the place of the field name.
\<close>

theorem Faulty_error_omits_field:
  "cmdFromStruct (sample_lib []) ''prog'' \<lparr>root = 0, flds = []\<rparr> (PtrT Faulty)
     = Inl (Errorf (''unrecognized tag '' @ [CHR 0x27] @ ''requierd'' @ [CHR 0x27]
                    @ '' on field requierd'' @ [CHR 0x0A]
                    @ ''Faulty.Out: chan int fields are not supported''))
   \<and> \<not> Contains (''unrecognized tag '' @ [CHR 0x27] @ ''requierd'' @ [CHR 0x27]
                    @ '' on field requierd'' @ [CHR 0x0A]
                    @ ''Faulty.Out: chan int fields are not supported'') ''Verbose''
   \<and> Contains (''unrecognized tag '' @ [CHR 0x27] @ ''requierd'' @ [CHR 0x27]
                @ '' on field requierd'' @ [CHR 0x0A]
                @ ''Faulty.Out: chan int fields are not supported'') ''Out''"
  by code_simp

section \<open>Properties of the token loop\<close>

lemma val_from_store:
  "val_from (RV t v a ro) fs = Inr (RV t' v' a' ro')
   \<Longrightarrow> val_from (RV t (store_from v fs x) a ro) fs = Inr (RV t' x a' ro')"
proof (induction fs arbitrary: t v a ro)
  case Nil
  then show ?case by simp
next
  case (Cons f fs)
  from Cons.prems show ?case
    by (auto simp: field_step_def FieldByName_def update_conv' split: gotype.splits gval.splits option.splits
        sum.splits prod.splits if_splits intro!: Cons.IH)
qed

lemma val_store:
  "val rs d = Inr (RV t v a ro) \<Longrightarrow> val (store rs d x) d = Inr (RV t x a ro)"
  by (auto simp: val_def store_def val_from_store split: if_splits prod.splits)

lemma captureEnvVars_unset:
  "\<forall>sp \<in> set sps. env sp = [] \<or> LookupEnv L (env sp) = None
   \<Longrightarrow> captureEnvVars L rs sps wp = Inr (rs, wp)"
  by (induction sps) auto

lemma drain_none: "positionals s = [] \<Longrightarrow> drain L sps s = Inr s"
  by (induction sps) auto

lemma check_required_None:
  "check_required sps wp = None \<longleftrightarrow> (\<forall>sp \<in> set sps. required sp \<longrightarrow> sp \<in> wp)"
  by (induction sps) auto

lemma append_values_map:
  "\<forall>s \<in> set vs. parseValue L (RV elem (zero elem) True False) s = Inr (f s)
   \<Longrightarrow> append_values L elem False xs vs
       = Inr (VSlice (if vs = [] then xs else Some (contents xs @ map f vs)))"
  by (induction vs arbitrary: xs) (auto simp: contents_def)

lemma setSlice_map:
  assumes "Kind et \<noteq> KPtr"
    and "\<forall>s \<in> set vs. parseValue L (RV et (zero et) True False) s = Inr (f s)"
  shows "setSlice L (RV (SliceT et) (VSlice xs) True False) vs trunc
         = Inr (VSlice (if vs = [] then (if trunc \<and> xs \<noteq> None then Some [] else xs)
                        else Some ((if trunc then [] else contents xs) @ map f vs)))"
proof -
  have av: "append_values L et False ys vs
              = Inr (VSlice (if vs = [] then ys else Some (contents ys @ map f vs)))" for ys
    using assms(2) by (rule append_values_map)
  show ?thesis
    using assms(1) by (auto simp: setSlice_def av contents_def)
qed

lemma isFlag_tag [simp]: "isFlag ''--tag''" "''--tag'' \<noteq> ''--''"
  "cut_at (TrimLeft ''--tag'' ''-'') CHR ''='' = (''tag'', [])"
  by (simp_all add: isFlag_def HasPrefix_def TrimLeft_def cut_at_def)

text \<open>
  C6. For a multi-value option of strings with \<^verbatim>\<open>separate\<close> set, found under the name
  "tag" among pairwise different options, the command line \<^verbatim>\<open>--tag a --tag b\<close> is
  interpreted without error and leaves the destination slice with the elements it had
  followed by "a", "b" in that order. From a destination that starts empty the result is
  ["a", "b"]. Each occurrence takes exactly one value and appends it: the turn on
  \<^verbatim>\<open>--tag\<close> followed by "a" advances by one token whatever comes after "a", a flag or not.
\<close>

theorem separate_occurrences_append:
  assumes env0: "captureEnvVars L (roots p) (cmd_specs (cmd p)) {} = Inr (rs, wp)"
    and dis: "distinct (cmd_specs (cmd p))"
    and opt: "findOption (cmd_specs (cmd p)) ''tag'' = Some sp"
    and multi: "multiple sp" and sep: "separate sp"
    and slot: "val rs (dest sp) = Inr (RV (SliceT et) (VSlice xs) True False)"
    and elem: "Kind et \<noteq> KPtr"
    and str: "\<forall>s \<in> {a, b}. parseValue L (RV et (zero et) True False) s = Inr (VString s)"
    and vals: "\<not> isFlag a" "\<not> isFlag b"
    and req: "\<forall>s \<in> set (cmd_specs (cmd p)). required s \<longrightarrow> s \<in> wp \<or> s = sp"
  shows "(\<exists>s. Parse L p [''--tag'', a, ''--tag'', b] = Inr s
           \<and> val (dests s) (dest sp)
               = Inr (RV (SliceT et) (VSlice (Some (contents xs @ [VString a, VString b]))) True False)
           \<and> sp \<in> wasPresent s)
       \<and> turn L \<lparr>dests = rs, curCmd = cmd p, specs = cmd_specs (cmd p), wasPresent = wp,
                  allpositional = False, positionals = []\<rparr> ''--tag'' (a # after)
           = Inr (\<lparr>dests = store rs (dest sp) (VSlice (Some (contents xs @ [VString a]))),
                   curCmd = cmd p, specs = cmd_specs (cmd p), wasPresent = insert sp wp,
                   allpositional = False, positionals = []\<rparr>, 1)"
proof -
  let ?s0 = "\<lparr>dests = rs, curCmd = cmd p, specs = cmd_specs (cmd p), wasPresent = wp,
              allpositional = False, positionals = []\<rparr>"
  let ?x1 = "VSlice (Some (contents xs @ [VString a]))"
  let ?s1 = "?s0\<lparr>wasPresent := insert sp wp, dests := store rs (dest sp) ?x1\<rparr>"
  let ?x2 = "VSlice (Some (contents xs @ [VString a, VString b]))"
  let ?s2 = "?s1\<lparr>wasPresent := insert sp (insert sp wp), dests := store (store rs (dest sp) ?x1) (dest sp) ?x2\<rparr>"
  have t1: "turn L ?s0 ''--tag'' (a # rest) = Inr (?s1, 1)" for rest
    using opt multi sep slot vals str
    by (simp add: turn_def flag_def assign_def lift_err_def setSlice_map [OF elem, where f = VString])
  have slot1: "val (store rs (dest sp) ?x1) (dest sp) = Inr (RV (SliceT et) ?x1 True False)"
    using slot by (rule val_store)
  have t2: "turn L ?s1 ''--tag'' [b] = Inr (?s2, 1)"
    using opt multi sep slot1 vals str
    by (simp add: turn_def flag_def assign_def lift_err_def setSlice_map [OF elem, where f = VString] contents_def)
  have l: "loop L ?s0 [''--tag'', a, ''--tag'', b] = Inr ?s2"
    using t1 t2 by simp
  have "check_required (cmd_specs (cmd p)) (insert sp (insert sp wp)) = None"
    using req by (auto simp: check_required_None)
  then have "process L p [''--tag'', a, ''--tag'', b] = Inr ?s2"
    using env0 l by (simp add: process_def drain_none)
  moreover have "val (dests ?s2) (dest sp) = Inr (RV (SliceT et) ?x2 True False)"
    using slot1 by (simp add: val_store)
  ultimately have "\<exists>s. Parse L p [''--tag'', a, ''--tag'', b] = Inr s
           \<and> val (dests s) (dest sp) = Inr (RV (SliceT et) ?x2 True False)
           \<and> sp \<in> wasPresent s"
    by (simp add: Parse_def)
  then show ?thesis
    using t1 [of after] by simp
qed

theorem separate_occurrences_append_witness:
  "value_after (sample_lib []) (args_parser []) [''--tag'', ''a'', ''--tag'', ''b'']
     \<lparr>root = 0, flds = [''Tag'']\<rparr>
   = Inr (RV (SliceT string_type) (VSlice (Some [VString ''a'', VString ''b''])) True False)
   \<and> turn (sample_lib []) (args_session []) ''--tag'' [''a'', ''b'']
     = Inr ((args_session [])
              \<lparr>wasPresent := {tag_spec},
                dests := store (dests (args_session [])) \<lparr>root = 0, flds = [''Tag'']\<rparr>
                           (VSlice (Some [VString ''a'']))\<rparr>, 1)"
proof -
  let ?L = "sample_lib []" and ?p = "args_parser []"
  have env0: "captureEnvVars ?L (roots ?p) (cmd_specs (cmd ?p)) {} = Inr (roots ?p, {})"
    by code_simp
  have opt: "findOption (cmd_specs (cmd ?p)) ''tag'' = Some tag_spec"
    unfolding tag_spec_def by code_simp
  have multi: "multiple tag_spec" and sep: "separate tag_spec"
    by (simp_all add: tag_spec_def)
  have slot: "val (roots ?p) (dest tag_spec)
                = Inr (RV (SliceT string_type) (VSlice None) True False)"
    by code_simp
  have elem: "Kind string_type \<noteq> KPtr"
    by (simp add: string_type_def)
  have str: "\<forall>s \<in> {''a'', ''b''}.
               parseValue ?L (RV string_type (zero string_type) True False) s = Inr (VString s)"
    by code_simp
  have vals: "\<not> isFlag ''a''" "\<not> isFlag ''b''"
    by code_simp+
  have req: "\<forall>s \<in> set (cmd_specs (cmd ?p)). required s \<longrightarrow> s \<in> {} \<or> s = tag_spec"
    unfolding tag_spec_def by code_simp
  have dis: "distinct (cmd_specs (cmd ?p))"
    by code_simp
  from separate_occurrences_append [OF env0 dis opt multi sep slot elem str vals req, of "[''b'']"]
  show ?thesis
    by (auto simp: value_after_def tag_spec_def contents_def args_session_def args_parser_def)
qed

lemma collect_stop: "rest = [] \<or> isFlag (hd rest) \<Longrightarrow> collect sep rest = []"
  by (cases rest) auto

lemma collect_greedy:
  "\<forall>v \<in> set vs. \<not> isFlag v \<Longrightarrow> rest = [] \<or> isFlag (hd rest) \<Longrightarrow> collect False (vs @ rest) = vs"
  by (induction vs) (auto simp: collect_stop)

text \<open>
  C2 (amended). For a multi-value option without \<^verbatim>\<open>separate\<close>, found among pairwise
  different options, whose destination slice
  holds defaults, supplying the option replaces the defaults: \<^verbatim>\<open>--names a b\<close> leaves
  ["a", "b"]. The truncation is done at every occurrence of the flag, not once per pass:
  after \<^verbatim>\<open>--names a --names b\<close> the slice holds ["b"], the values of the last occurrence.
\<close>

theorem every_occurrence_truncates:
  assumes env0: "captureEnvVars L (roots p) (cmd_specs (cmd p)) {} = Inr (rs, wp)"
    and dis: "distinct (cmd_specs (cmd p))"
    and shape: "isFlag arg" "arg \<notin> {''-h'', ''--help'', ''--version''}"
      "cut_at (TrimLeft arg ''-'') CHR ''='' = (opt, [])"
    and opt: "findOption (cmd_specs (cmd p)) opt = Some sp"
    and multi: "multiple sp" and sep: "\<not> separate sp"
    and slot: "val rs (dest sp) = Inr (RV (SliceT et) (VSlice (Some defaults)) True False)"
    and elem: "Kind et \<noteq> KPtr"
    and str: "\<forall>s \<in> {a, b}. parseValue L (RV et (zero et) True False) s = Inr (VString s)"
    and vals: "\<not> isFlag a" "\<not> isFlag b"
    and req: "\<forall>s \<in> set (cmd_specs (cmd p)). required s \<longrightarrow> s \<in> wp \<or> s = sp"
  shows "(\<exists>s. Parse L p [arg, a, b] = Inr s
            \<and> val (dests s) (dest sp)
                = Inr (RV (SliceT et) (VSlice (Some [VString a, VString b])) True False))
       \<and> (\<exists>s. Parse L p [arg, a, arg, b] = Inr s
            \<and> val (dests s) (dest sp)
                = Inr (RV (SliceT et) (VSlice (Some [VString b])) True False))"
proof -
  let ?s0 = "\<lparr>dests = rs, curCmd = cmd p, specs = cmd_specs (cmd p), wasPresent = wp,
              allpositional = False, positionals = []\<rparr>"
  have dash: "arg \<noteq> ''--''"
    using shape(1) by (auto simp: isFlag_def TrimLeft_def)
  have rq: "check_required (cmd_specs (cmd p)) (insert sp wp) = None"
    using req by (auto simp: check_required_None)
  have step: "turn L (?s0\<lparr>dests := ds, wasPresent := w\<rparr>) arg (vs @ rest)
        = Inr (?s0\<lparr>dests := store ds (dest sp) (VSlice (Some (map VString vs))),
                    wasPresent := insert sp w\<rparr>, length vs)"
    if "val ds (dest sp) = Inr (RV (SliceT et) (VSlice (Some old)) True False)"
      and "set vs \<subseteq> {a, b}" and "vs \<noteq> []" and "rest = [] \<or> isFlag (hd rest)"
    for ds w vs rest old
  proof -
    have "\<forall>v \<in> set vs. \<not> isFlag v"
      using that(2) vals by auto
    then have c: "collect False (vs @ rest) = vs"
      using that(4) by (rule collect_greedy)
    have "\<forall>s \<in> set vs. parseValue L (RV et (zero et) True False) s = Inr (VString s)"
      using that(2) str by auto
    note ss = setSlice_map [OF elem this]
    show ?thesis
      using shape dash opt multi sep that(1,3)
      by (simp add: turn_def flag_def assign_def lift_err_def c ss)
  qed
  have one: "loop L ?s0 [arg, a, b]
        = Inr (?s0\<lparr>dests := store rs (dest sp) (VSlice (Some [VString a, VString b])),
                    wasPresent := insert sp wp\<rparr>)"
    using step [of rs defaults "[a, b]" "[]" wp] slot by simp
  let ?d1 = "store rs (dest sp) (VSlice (Some [VString a]))"
  have slot1: "val ?d1 (dest sp) = Inr (RV (SliceT et) (VSlice (Some [VString a])) True False)"
    using slot by (rule val_store)
  have two: "loop L ?s0 [arg, a, arg, b]
        = Inr (?s0\<lparr>dests := store ?d1 (dest sp) (VSlice (Some [VString b])),
                    wasPresent := insert sp (insert sp wp)\<rparr>)"
    using step [of rs defaults "[a]" "[arg, b]" wp] step [of ?d1 "[VString a]" "[b]" "[]" "insert sp wp"]
      slot slot1 shape(1) by simp
  have "\<exists>s. Parse L p [arg, a, b] = Inr s
            \<and> val (dests s) (dest sp)
                = Inr (RV (SliceT et) (VSlice (Some [VString a, VString b])) True False)"
    using env0 one rq slot by (simp add: Parse_def process_def drain_none val_store)
  moreover have "\<exists>s. Parse L p [arg, a, arg, b] = Inr s
            \<and> val (dests s) (dest sp)
                = Inr (RV (SliceT et) (VSlice (Some [VString b])) True False)"
    using env0 two rq slot1 by (simp add: Parse_def process_def drain_none val_store)
  ultimately show ?thesis ..
qed

theorem every_occurrence_truncates_witness:
  "value_after (sample_lib []) (args_parser [''x'']) [''--names'', ''a'', ''b'']
     \<lparr>root = 0, flds = [''Names'']\<rparr>
   = Inr (RV (SliceT string_type) (VSlice (Some [VString ''a'', VString ''b''])) True False)
   \<and> value_after (sample_lib []) (args_parser [''x'']) [''--names'', ''a'', ''--names'', ''b'']
     \<lparr>root = 0, flds = [''Names'']\<rparr>
   = Inr (RV (SliceT string_type) (VSlice (Some [VString ''b''])) True False)"
proof -
  let ?L = "sample_lib []" and ?p = "args_parser [''x'']"
  have env0: "captureEnvVars ?L (roots ?p) (cmd_specs (cmd ?p)) {} = Inr (roots ?p, {})"
    by code_simp
  have shape: "isFlag ''--names''" "''--names'' \<notin> {''-h'', ''--help'', ''--version''}"
    "cut_at (TrimLeft ''--names'' ''-'') CHR ''='' = (''names'', [])"
    by code_simp+
  have opt: "findOption (cmd_specs (cmd ?p)) ''names'' = Some names_spec"
    unfolding names_spec_def by code_simp
  have multi: "multiple names_spec" and sep: "\<not> separate names_spec"
    by (simp_all add: names_spec_def)
  have slot: "val (roots ?p) (dest names_spec)
                = Inr (RV (SliceT string_type) (VSlice (Some [VString ''x''])) True False)"
    by code_simp
  have elem: "Kind string_type \<noteq> KPtr"
    by (simp add: string_type_def)
  have str: "\<forall>s \<in> {''a'', ''b''}.
               parseValue ?L (RV string_type (zero string_type) True False) s = Inr (VString s)"
    by code_simp
  have vals: "\<not> isFlag ''a''" "\<not> isFlag ''b''"
    by code_simp+
  have req: "\<forall>s \<in> set (cmd_specs (cmd ?p)). required s \<longrightarrow> s \<in> {} \<or> s = names_spec"
    unfolding names_spec_def by code_simp
  have dis: "distinct (cmd_specs (cmd ?p))"
    by code_simp
  from every_occurrence_truncates [OF env0 dis shape opt multi sep slot elem str vals req]
  show ?thesis
    by (auto simp: value_after_def names_spec_def)
qed

theorem later_occurrence_wipes_earlier:
  "value_after (sample_lib []) (args_parser [''x'']) [''--names'', ''a'', ''--names'', ''b'']
     \<lparr>root = 0, flds = [''Names'']\<rparr>
   = Inr (RV (SliceT string_type) (VSlice (Some [VString ''b''])) True False)
   \<and> value_after (sample_lib []) (args_parser [''x'']) [''--names'', ''a'', ''--names'', ''b'']
     \<lparr>root = 0, flds = [''Names'']\<rparr>
   \<noteq> Inr (RV (SliceT string_type) (VSlice (Some [VString ''a'', VString ''b''])) True False)"
  by code_simp

lemma findOption_Some:
  "findOption sps n = Some sp \<Longrightarrow> sp \<in> set sps \<and> \<not> positional sp \<and> (long sp = n \<or> short sp = n)"
  by (induction sps) (auto split: if_splits)

lemma check_required_first:
  "sp \<in> set sps \<Longrightarrow> required sp \<Longrightarrow> sp \<notin> wp
   \<Longrightarrow> \<forall>s \<in> set sps. required s \<and> s \<noteq> sp \<longrightarrow> s \<in> wp
   \<Longrightarrow> check_required sps wp
       = Some (Errorf ((if positional sp then long sp else ''--'' @ long sp) @ '' is required''))"
  by (induction sps) auto

lemma wrap_not_missing: "wrap (CHR ''e'' # x) e \<noteq> Errorf (CHR ''m'' # y)"
  by (cases e) (simp_all add: wrap_def)

text \<open>
  C10. A turn of the loop on a flag that names a multi-value option never returns a
  "missing value" error. When the flag has no inline value and no value follows (the
  stream ends or the next token is a flag), the turn succeeds, takes no token, marks the
  option present and writes the empty list of values: a \<^verbatim>\<open>separate\<close> option keeps its
  slice, any other has its slice truncated to empty (a nil slice stays nil).
\<close>

theorem multiple_never_missing_value:
  assumes shape: "isFlag arg" "arg \<notin> {''-h'', ''--help'', ''--version''}" "\<not> allpositional s"
      "cut_at (TrimLeft arg ''-'') CHR ''='' = (opt, value)"
    and opt: "findOption (specs s) opt = Some sp"
    and multi: "multiple sp"
  shows "(\<forall>x. turn L s arg rest \<noteq> Inl (Errorf (''missing value for '' @ x)))
       \<and> (value = [] \<and> (rest = [] \<or> isFlag (hd rest))
            \<and> val (dests s) (dest sp) = Inr (RV (SliceT et) (VSlice xs) True False)
          \<longrightarrow> turn L s arg rest
                = Inr (s\<lparr>wasPresent := insert sp (wasPresent s),
                         dests := store (dests s) (dest sp)
                                    (VSlice (if separate sp \<or> xs = None then xs else Some []))\<rparr>, 0))"
proof -
  have dash: "arg \<noteq> ''--''"
    using shape(1) by (auto simp: isFlag_def TrimLeft_def)
  have t: "turn L s arg rest = flag L s arg rest"
    using shape dash by (simp add: turn_def)
  have "flag L s arg rest \<noteq> Inl (Errorf (''missing value for '' @ x))" for x
    using shape(4) opt multi
    by (auto simp: flag_def Let_def lift_err_def wrap_not_missing split: sum.splits)
  moreover have "flag L s arg rest
      = Inr (s\<lparr>wasPresent := insert sp (wasPresent s),
               dests := store (dests s) (dest sp)
                          (VSlice (if separate sp \<or> xs = None then xs else Some []))\<rparr>, 0)"
    if "value = []" "rest = [] \<or> isFlag (hd rest)"
      "val (dests s) (dest sp) = Inr (RV (SliceT et) (VSlice xs) True False)"
    using shape(4) opt multi that collect_stop [OF that(2), of "separate sp"]
    by (auto simp: flag_def Let_def lift_err_def assign_def setSlice_def)
  ultimately show ?thesis
    using t by simp
qed

theorem multiple_never_missing_value_witness:
  "turn (sample_lib []) (args_session [''x'']) ''--names'' []
     = Inr ((args_session [''x''])
              \<lparr>wasPresent := {names_spec},
                dests := store (dests (args_session [''x''])) \<lparr>root = 0, flds = [''Names'']\<rparr>
                           (VSlice (Some []))\<rparr>, 0)
   \<and> turn (sample_lib []) (args_session [''x'']) ''--tag'' [''--tag'', ''b'']
     = Inr ((args_session [''x''])
              \<lparr>wasPresent := {tag_spec},
                dests := store (dests (args_session [''x''])) \<lparr>root = 0, flds = [''Tag'']\<rparr>
                           (VSlice None)\<rparr>, 0)"
proof -
  let ?L = "sample_lib []" and ?s = "args_session [''x'']"
  have np: "\<not> allpositional ?s"
    by (simp add: args_session_def)
  have shape1: "isFlag ''--names''" "''--names'' \<notin> {''-h'', ''--help'', ''--version''}"
    and cut1: "cut_at (TrimLeft ''--names'' ''-'') CHR ''='' = (''names'', [])"
    by code_simp+
  have opt1: "findOption (specs ?s) ''names'' = Some names_spec"
    unfolding names_spec_def by code_simp
  have slot1: "val (dests ?s) (dest names_spec)
                 = Inr (RV (SliceT string_type) (VSlice (Some [VString ''x''])) True False)"
    by code_simp
  have shape2: "isFlag ''--tag''" "''--tag'' \<notin> {''-h'', ''--help'', ''--version''}"
    and cut2: "cut_at (TrimLeft ''--tag'' ''-'') CHR ''='' = (''tag'', [])"
    by code_simp+
  have opt2: "findOption (specs ?s) ''tag'' = Some tag_spec"
    unfolding tag_spec_def by code_simp
  have slot2: "val (dests ?s) (dest tag_spec)
                 = Inr (RV (SliceT string_type) (VSlice None) True False)"
    by code_simp
  have m: "multiple names_spec" "\<not> separate names_spec" "multiple tag_spec" "separate tag_spec"
    by (simp_all add: names_spec_def tag_spec_def)
  have e: "wasPresent ?s = {}" "dest names_spec = \<lparr>root = 0, flds = [''Names'']\<rparr>"
    "dest tag_spec = \<lparr>root = 0, flds = [''Tag'']\<rparr>"
    by (simp_all add: args_session_def names_spec_def tag_spec_def)
  from multiple_never_missing_value [OF shape1 np cut1 opt1 m(1), of ?L "[]" string_type
      "Some [VString ''x'']"] slot1 m(2)
  have a: "turn ?L ?s ''--names'' []
     = Inr (?s\<lparr>wasPresent := {names_spec},
                dests := store (dests ?s) \<lparr>root = 0, flds = [''Names'']\<rparr> (VSlice (Some []))\<rparr>, 0)"
    by (simp add: e)
  have f: "isFlag (hd [''--tag'', ''b''])"
    by code_simp
  from multiple_never_missing_value [OF shape2 np cut2 opt2 m(3), of ?L "[''--tag'', ''b'']"
      string_type None] slot2 m(4) f
  have b: "turn ?L ?s ''--tag'' [''--tag'', ''b'']
     = Inr (?s\<lparr>wasPresent := {tag_spec},
                dests := store (dests ?s) \<lparr>root = 0, flds = [''Tag'']\<rparr> (VSlice None)\<rparr>, 0)"
    by (simp add: e)
  from a b show ?thesis by simp
qed

lemma turn_single:
  assumes shape: "isFlag arg" "arg \<notin> {''-h'', ''--help'', ''--version''}" "\<not> allpositional s"
      "cut_at (TrimLeft arg ''-'') CHR ''='' = (opt, [])"
    and opt: "findOption (specs s) opt = Some sp"
    and single: "\<not> multiple sp" and nb: "\<not> boolean sp"
  shows "turn L s arg [] = Inl (Errorf (''missing value for '' @ arg))"
    and "isFlag nxt \<and> \<not> nextIsNumeric L (stype sp) nxt
         \<Longrightarrow> turn L s arg (nxt # after) = Inl (Errorf (''missing value for '' @ arg))"
    and "\<not> isFlag nxt \<or> nextIsNumeric L (stype sp) nxt
         \<Longrightarrow> turn L s arg (nxt # after)
             = (case lift_err (wrap (''error processing '' @ arg @ '': ''))
                       (assign (dests s) (dest sp) (\<lambda>rv. parseValue L rv nxt)) of
                  Inl e \<Rightarrow> Inl e
                | Inr rs \<Rightarrow> Inr (s\<lparr>wasPresent := insert sp (wasPresent s), dests := rs\<rparr>, 1))"
proof -
  have dash: "arg \<noteq> ''--''"
    using shape(1) by (auto simp: isFlag_def TrimLeft_def)
  have t: "turn L s arg rest = flag L s arg rest" for rest
    using shape dash by (simp add: turn_def)
  show "turn L s arg [] = Inl (Errorf (''missing value for '' @ arg))"
    using shape(4) opt single nb by (simp add: t flag_def)
  show "turn L s arg (nxt # after) = Inl (Errorf (''missing value for '' @ arg))"
    if "isFlag nxt \<and> \<not> nextIsNumeric L (stype sp) nxt"
    using shape(4) opt single nb that by (simp add: t flag_def)
  show "turn L s arg (nxt # after)
             = (case lift_err (wrap (''error processing '' @ arg @ '': ''))
                       (assign (dests s) (dest sp) (\<lambda>rv. parseValue L rv nxt)) of
                  Inl e \<Rightarrow> Inl e
                | Inr rs \<Rightarrow> Inr (s\<lparr>wasPresent := insert sp (wasPresent s), dests := rs\<rparr>, 1))"
    if "\<not> isFlag nxt \<or> nextIsNumeric L (stype sp) nxt"
    using shape(4) opt single nb that by (auto simp: t flag_def split: sum.splits)
qed

lemma nextIsNumeric_pointee:
  "pointee t = Basic n k
   \<Longrightarrow> nextIsNumeric L t s \<longleftrightarrow> numeric k \<and> \<not> isl (parseValue L (reflect_New (Basic n k)) s)"
  by (induction L t s rule: nextIsNumeric.induct) (auto split: sum.splits)

text \<open>
  C5. Take a single-value option that is not boolean and whose type is, behind any number of
  pointers, of a numeric scalar kind (the signed and unsigned integers, uintptr and the two
  floats). A token is a numeric literal for it when \<^verbatim>\<open>parseValue\<close> accepts the token on a
  fresh variable of that scalar type. A flag for the option without inline value fails with
  "missing value" exactly when the stream ends or the next token is flag-shaped and is no
  such literal. A next token that is such a literal, flag-shaped or not, is taken as the
  value and parsed into the destination; so, among pairwise different options,
  \<^verbatim>\<open>--count -5\<close> from the start of the stream leaves the parsed value of "-5" in the
  destination and returns no error.
\<close>

theorem numeric_value_is_consumed:
  assumes shape: "isFlag arg" "arg \<notin> {''-h'', ''--help'', ''--version''}" "\<not> allpositional s"
      "cut_at (TrimLeft arg ''-'') CHR ''='' = (opt, [])"
    and opt: "findOption (specs s) opt = Some sp"
    and single: "\<not> multiple sp" and nb: "\<not> boolean sp"
    and scalar: "pointee (stype sp) = Basic tn k"
    and kind: "k \<in> {KInt, KInt8, KInt16, KInt32, KInt64, KFloat32, KFloat64,
                     KUint, KUint8, KUint16, KUint32, KUint64, KUintptr}"
  shows "(turn L s arg rest = Inl (Errorf (''missing value for '' @ arg))
            \<longleftrightarrow> rest = []
                \<or> (isFlag (hd rest) \<and> isl (parseValue L (reflect_New (Basic tn k)) (hd rest))))
       \<and> (\<not> isl (parseValue L (reflect_New (Basic tn k)) nxt)
            \<and> val (dests s) (dest sp) = Inr rv \<and> parseValue L rv nxt = Inr x
          \<longrightarrow> turn L s arg (nxt # after)
                = Inr (s\<lparr>wasPresent := insert sp (wasPresent s),
                         dests := store (dests s) (dest sp) x\<rparr>, 1))
       \<and> (captureEnvVars L (roots p) (cmd_specs (cmd p)) {} = Inr (dests s, wasPresent s)
            \<and> curCmd s = cmd p \<and> specs s = cmd_specs (cmd p) \<and> positionals s = []
            \<and> distinct (specs s)
            \<and> (\<forall>r \<in> set (specs s). required r \<longrightarrow> r \<in> wasPresent s \<or> r = sp)
            \<and> \<not> isl (parseValue L (reflect_New (Basic tn k)) nxt)
            \<and> val (dests s) (dest sp) = Inr (RV t v a ro)
            \<and> parseValue L (RV t v a ro) nxt = Inr x
          \<longrightarrow> (\<exists>s'. Parse L p [arg, nxt] = Inr s'
                 \<and> val (dests s') (dest sp) = Inr (RV t x a ro) \<and> sp \<in> wasPresent s'))"
proof -
  have "numeric k"
    using kind by (auto simp: numeric_def)
  then have lit: "isl (parseValue L (reflect_New (Basic tn k)) tok)
                    \<longleftrightarrow> \<not> nextIsNumeric L (stype sp) tok" for tok
    using nextIsNumeric_pointee [OF scalar, of L tok] by simp
  note ts = turn_single [OF shape opt single nb]
  have one: "turn L s arg rest = Inl (Errorf (''missing value for '' @ arg))
            \<longleftrightarrow> rest = [] \<or> (isFlag (hd rest) \<and> \<not> nextIsNumeric L (stype sp) (hd rest))"
  proof (cases rest)
    case Nil
    then show ?thesis using ts(1) by simp
  next
    case (Cons n after)
    show ?thesis
    proof (cases "isFlag n \<and> \<not> nextIsNumeric L (stype sp) n")
      case True
      then show ?thesis using ts(2) [of n L after] Cons by simp
    next
      case False
      then have "\<not> isFlag n \<or> nextIsNumeric L (stype sp) n" by blast
      from ts(3) [OF this, of after] show ?thesis
        using Cons False
        by (auto simp: lift_err_def wrap_not_missing split: sum.splits)
    qed
  qed
  have two: "turn L s arg (nxt # after)
                = Inr (s\<lparr>wasPresent := insert sp (wasPresent s),
                         dests := store (dests s) (dest sp) x\<rparr>, 1)"
    if "nextIsNumeric L (stype sp) nxt" "val (dests s) (dest sp) = Inr rv" "parseValue L rv nxt = Inr x"
    for rv x after
    using ts(3) [of nxt L after] that by (simp add: lift_err_def assign_def)
  have three: "\<exists>s'. Parse L p [arg, nxt] = Inr s'
                 \<and> val (dests s') (dest sp) = Inr (RV t x a ro) \<and> sp \<in> wasPresent s'"
    if env0: "captureEnvVars L (roots p) (cmd_specs (cmd p)) {} = Inr (dests s, wasPresent s)"
      and init: "curCmd s = cmd p" "specs s = cmd_specs (cmd p)" "positionals s = []"
      and req: "\<forall>r \<in> set (specs s). required r \<longrightarrow> r \<in> wasPresent s \<or> r = sp"
      and num: "nextIsNumeric L (stype sp) nxt"
      and slot: "val (dests s) (dest sp) = Inr (RV t v a ro)"
      and parse: "parseValue L (RV t v a ro) nxt = Inr x"
  proof -
    have s: "\<lparr>dests = dests s, curCmd = cmd p, specs = cmd_specs (cmd p), wasPresent = wasPresent s,
              allpositional = False, positionals = []\<rparr> = s"
      using init shape(3) by simp
    let ?s' = "s\<lparr>wasPresent := insert sp (wasPresent s), dests := store (dests s) (dest sp) x\<rparr>"
    have "loop L s [arg, nxt] = Inr ?s'"
      using two [OF num slot parse, of "[]"] by simp
    moreover have "check_required (specs s) (insert sp (wasPresent s)) = None"
      using req by (auto simp: check_required_None)
    ultimately have "process L p [arg, nxt] = Inr ?s'"
      using env0 init by (simp add: process_def s drain_none)
    then show ?thesis
      using slot by (simp add: Parse_def val_store)
  qed
  show ?thesis
    unfolding lit using one two three by blast
qed

theorem numeric_value_is_consumed_witness:
  "isFlag ''-5''
   \<and> value_after (sample_lib []) (args_parser []) [''--count'', ''-5'']
        \<lparr>root = 0, flds = [''Count'']\<rparr>
     = Inr (RV int_type (VInt (- 5)) True False)
   \<and> turn (sample_lib []) (args_session []) ''--count'' []
     = Inl (Errorf ''missing value for --count'')
   \<and> turn (sample_lib []) (args_session []) ''--count'' [''-x'']
     = Inl (Errorf ''missing value for --count'')"
proof -
  let ?L = "sample_lib []" and ?s = "args_session []" and ?p = "args_parser []"
  have shape: "isFlag ''--count''" "''--count'' \<notin> {''-h'', ''--help'', ''--version''}"
    "\<not> allpositional ?s" "cut_at (TrimLeft ''--count'' ''-'') CHR ''='' = (''count'', [])"
    by code_simp+
  have opt: "findOption (specs ?s) ''count'' = Some count_spec"
    unfolding count_spec_def by code_simp
  have single: "\<not> multiple count_spec" and nb: "\<not> boolean count_spec"
    by (simp_all add: count_spec_def)
  have scalar: "pointee (stype count_spec) = Basic ''int'' KInt"
    by (simp add: count_spec_def int_type_def)
  have kind: "KInt \<in> {KInt, KInt8, KInt16, KInt32, KInt64, KFloat32, KFloat64,
                      KUint, KUint8, KUint16, KUint32, KUint64, KUintptr}"
    by simp
  have flagged: "isFlag ''-5''" "isFlag ''-x''"
    by code_simp+
  have num: "\<not> isl (parseValue ?L (reflect_New (Basic ''int'' KInt)) ''-5'')"
    and nan: "isl (parseValue ?L (reflect_New (Basic ''int'' KInt)) ''-x'')"
    by code_simp+
  have env0: "captureEnvVars ?L (roots ?p) (cmd_specs (cmd ?p)) {} = Inr (dests ?s, wasPresent ?s)"
    by code_simp
  have init: "curCmd ?s = cmd ?p" "specs ?s = cmd_specs (cmd ?p)" "positionals ?s = []"
    by (simp_all add: args_session_def)
  have dis: "distinct (specs ?s)"
    by code_simp
  have req: "\<forall>r \<in> set (specs ?s). required r \<longrightarrow> r \<in> wasPresent ?s \<or> r = count_spec"
    unfolding count_spec_def by code_simp
  have slot: "val (dests ?s) (dest count_spec) = Inr (RV int_type (VInt 0) True False)"
    by code_simp
  have parse: "parseValue ?L (RV int_type (VInt 0) True False) ''-5'' = Inr (VInt (- 5))"
    by code_simp
  note inst = numeric_value_is_consumed [OF shape opt single nb scalar kind]
  from inst [where L = ?L and rest = "[]"]
  have a: "turn ?L ?s ''--count'' [] = Inl (Errorf ''missing value for --count'')"
    by simp
  from inst [where L = ?L and rest = "[''-x'']"] flagged(2) nan
  have b: "turn ?L ?s ''--count'' [''-x''] = Inl (Errorf ''missing value for --count'')"
    by simp
  from inst [where L = ?L and nxt = "''-5''" and p = ?p and t = int_type and v = "VInt 0"
      and a = True and ro = False and x = "VInt (- 5)"]
    env0 init dis req num slot parse
  obtain s' where "Parse ?L ?p [''--count'', ''-5''] = Inr s'"
    "val (dests s') (dest count_spec) = Inr (RV int_type (VInt (- 5)) True False)"
    by blast
  then have c: "value_after ?L ?p [''--count'', ''-5''] \<lparr>root = 0, flds = [''Count'']\<rparr>
     = Inr (RV int_type (VInt (- 5)) True False)"
    by (simp add: value_after_def count_spec_def)
  from flagged(1) a b c show ?thesis by simp
qed

lemma captureEnvVars_only:
  assumes others: "\<forall>r \<in> set sps. r \<noteq> sp \<longrightarrow> env r = [] \<or> LookupEnv L (env r) = None"
    and var: "env sp \<noteq> []" "LookupEnv L (env sp) = Some envval" "\<not> multiple sp"
    and parse: "\<forall>v. parseValue L (RV t v True False) envval = Inr x"
    and slot: "val rs (dest sp) = Inr (RV t v True False)"
    and mem: "sp \<in> set sps"
  shows "\<exists>rs'. captureEnvVars L rs sps wp = Inr (rs', insert sp wp)
               \<and> val rs' (dest sp) = Inr (RV t x True False)"
proof -
  have "\<exists>rs'. captureEnvVars L rs sps wp = Inr (rs', if sp \<in> set sps then insert sp wp else wp)
               \<and> (if sp \<in> set sps then val rs' (dest sp) = Inr (RV t x True False) else rs' = rs)"
    using others slot
  proof (induction sps arbitrary: rs wp v)
    case Nil
    then show ?case by simp
  next
    case (Cons r sps)
    show ?case
    proof (cases "r = sp")
      case True
      let ?rs = "store rs (dest sp) x"
      have slot': "val ?rs (dest sp) = Inr (RV t x True False)"
        using Cons.prems(2) by (rule val_store)
      from Cons.IH [OF _ slot', of "insert sp wp"] Cons.prems(1)
      obtain rs' where
        "captureEnvVars L ?rs sps (insert sp wp)
           = Inr (rs', if sp \<in> set sps then insert sp (insert sp wp) else insert sp wp)"
        "if sp \<in> set sps then val rs' (dest sp) = Inr (RV t x True False) else rs' = ?rs"
        by auto
      then show ?thesis
        using True var parse Cons.prems(2) slot'
        by (auto simp: assign_def lift_err_def split: if_splits)
    next
      case False
      with Cons.prems(1) have skip: "env r = [] \<or> LookupEnv L (env r) = None"
        by simp
      from Cons.IH [OF _ Cons.prems(2), of wp] Cons.prems(1)
      obtain rs' where
        "captureEnvVars L rs sps wp = Inr (rs', if sp \<in> set sps then insert sp wp else wp)"
        "if sp \<in> set sps then val rs' (dest sp) = Inr (RV t x True False) else rs' = rs"
        by auto
      then show ?thesis
        using False skip by auto
    qed
  qed
  then show ?thesis using mem by simp
qed

lemma isFlag_foo [simp]: "isFlag ''--foo''" "''--foo'' \<noteq> ''--''"
  "cut_at (TrimLeft ''--foo'' ''-'') CHR ''='' = (''foo'', [])" "\<not> isFlag ''9''"
  by (simp_all add: isFlag_def HasPrefix_def TrimLeft_def cut_at_def)

text \<open>
  C3 (amended). For an option of the root command that declares the environment variable
  FOO, with FOO=5 in the environment, the seeding done before the loop marks the option
  present and writes 5; the empty command line leaves foo = 5, and \<^verbatim>\<open>--foo 9\<close> leaves
  foo = 9. The options of a subcommand are seeded later, when the turn on the subcommand's
  name enters it.
\<close>

theorem environment_then_command_line:
  assumes opt: "findOption (cmd_specs (cmd p)) ''foo'' = Some sp"
    and var: "env sp = ''FOO''" "LookupEnv L ''FOO'' = Some ''5''"
    and others: "\<forall>r \<in> set (cmd_specs (cmd p)). r \<noteq> sp \<longrightarrow> env r = [] \<or> LookupEnv L (env r) = None"
    and single: "\<not> multiple sp" "\<not> boolean sp"
    and slot: "val (roots p) (dest sp) = Inr (RV t v True False)"
    and parse5: "\<forall>v. parseValue L (RV t v True False) ''5'' = Inr (VInt 5)"
    and parse9: "\<forall>v. parseValue L (RV t v True False) ''9'' = Inr (VInt 9)"
    and req: "\<forall>r \<in> set (cmd_specs (cmd p)). required r \<longrightarrow> r = sp"
  shows "(\<exists>rs wp. captureEnvVars L (roots p) (cmd_specs (cmd p)) {} = Inr (rs, wp) \<and> sp \<in> wp
            \<and> val rs (dest sp) = Inr (RV t (VInt 5) True False))
       \<and> (\<exists>s. Parse L p [] = Inr s \<and> sp \<in> wasPresent s
            \<and> val (dests s) (dest sp) = Inr (RV t (VInt 5) True False))
       \<and> (\<exists>s. Parse L p [''--foo'', ''9''] = Inr s \<and> sp \<in> wasPresent s
            \<and> val (dests s) (dest sp) = Inr (RV t (VInt 9) True False))
       \<and> (\<not> isFlag name \<and> name \<noteq> ''--''
            \<and> findSubcommand (cmd_subcommands (curCmd s0)) name = Some sub
            \<and> turn L s0 name rest = Inr (s1, n)
          \<longrightarrow> (\<exists>rs. instantiate (dests s0) (cmd_dest sub) = Inr rs
                 \<and> captureEnvVars L rs (cmd_specs sub) (wasPresent s0)
                     = Inr (dests s1, wasPresent s1)))"
proof -
  have mem: "sp \<in> set (cmd_specs (cmd p))"
    using opt by (simp add: findOption_Some)
  from captureEnvVars_only [where envval = "''5''" and wp = "{}", OF others _ _ single(1) parse5 slot mem] var
  obtain rs where env0: "captureEnvVars L (roots p) (cmd_specs (cmd p)) {} = Inr (rs, {sp})"
    and slot5: "val rs (dest sp) = Inr (RV t (VInt 5) True False)"
    by auto
  let ?s0 = "\<lparr>dests = rs, curCmd = cmd p, specs = cmd_specs (cmd p), wasPresent = {sp},
              allpositional = False, positionals = []\<rparr>"
  have rq: "check_required (cmd_specs (cmd p)) {sp} = None"
    using req by (auto simp: check_required_None)
  have a: "\<exists>rs wp. captureEnvVars L (roots p) (cmd_specs (cmd p)) {} = Inr (rs, wp) \<and> sp \<in> wp
            \<and> val rs (dest sp) = Inr (RV t (VInt 5) True False)"
    using env0 slot5 by auto
  have b: "\<exists>s. Parse L p [] = Inr s \<and> sp \<in> wasPresent s
            \<and> val (dests s) (dest sp) = Inr (RV t (VInt 5) True False)"
    using env0 slot5 rq by (simp add: Parse_def process_def drain_none)
  have "turn L ?s0 ''--foo'' [''9'']
          = Inr (?s0\<lparr>wasPresent := insert sp {sp}, dests := store rs (dest sp) (VInt 9)\<rparr>, 1)"
    using opt single slot5 parse9
    by (simp add: turn_def flag_def assign_def lift_err_def)
  then have "loop L ?s0 [''--foo'', ''9'']
          = Inr (?s0\<lparr>wasPresent := insert sp {sp}, dests := store rs (dest sp) (VInt 9)\<rparr>)"
    by simp
  then have c: "\<exists>s. Parse L p [''--foo'', ''9''] = Inr s \<and> sp \<in> wasPresent s
            \<and> val (dests s) (dest sp) = Inr (RV t (VInt 9) True False)"
    using env0 slot5 rq by (simp add: Parse_def process_def drain_none val_store)
  have d: "\<exists>rs. instantiate (dests s0) (cmd_dest sub) = Inr rs
                 \<and> captureEnvVars L rs (cmd_specs sub) (wasPresent s0)
                     = Inr (dests s1, wasPresent s1)"
    if "\<not> isFlag name" "name \<noteq> ''--''"
      "findSubcommand (cmd_subcommands (curCmd s0)) name = Some sub"
      "turn L s0 name rest = Inr (s1, n)"
  proof -
    have "cmd_subcommands (curCmd s0) \<noteq> []"
      using that(3) by auto
    then have "enter L s0 sub = Inr s1"
      using that by (simp add: turn_def split: sum.splits)
    then show ?thesis
      by (auto simp: enter_def split: sum.splits)
  qed
  show ?thesis using a b c d by blast
qed

theorem environment_then_command_line_witness:
  "value_after (sample_lib [(''FOO'', ''5'')]) (args_parser []) [] \<lparr>root = 0, flds = [''Foo'']\<rparr>
     = Inr (RV int_type (VInt 5) True False)
   \<and> present_after (sample_lib [(''FOO'', ''5'')]) (args_parser []) [] foo_spec = Inr True
   \<and> value_after (sample_lib [(''FOO'', ''5'')]) (args_parser []) [''--foo'', ''9'']
        \<lparr>root = 0, flds = [''Foo'']\<rparr>
     = Inr (RV int_type (VInt 9) True False)
   \<and> (\<exists>rs. instantiate (dests (args_session [])) (cmd_dest serve_cmd) = Inr rs
          \<and> captureEnvVars (sample_lib [(''FOO'', ''5'')]) rs (cmd_specs serve_cmd) {}
              = Inr (store (dests (args_session [])) \<lparr>root = 0, flds = [''Serve'']\<rparr>
                       (VPtr (Some (zero ServeCmd))), {}))"
proof -
  let ?L = "sample_lib [(''FOO'', ''5'')]" and ?p = "args_parser []" and ?s = "args_session []"
  let ?rs = "store (dests ?s) \<lparr>root = 0, flds = [''Serve'']\<rparr> (VPtr (Some (zero ServeCmd)))"
  let ?s1 = "?s\<lparr>dests := ?rs, specs := specs ?s @ [port_spec], curCmd := serve_cmd\<rparr>"
  have opt: "findOption (cmd_specs (cmd ?p)) ''foo'' = Some foo_spec"
    unfolding foo_spec_def by code_simp
  have var: "env foo_spec = ''FOO''" "LookupEnv ?L ''FOO'' = Some ''5''"
    by (simp_all add: foo_spec_def sample_lib_def)
  have others: "\<forall>r \<in> set (cmd_specs (cmd ?p)).
                  r \<noteq> foo_spec \<longrightarrow> env r = [] \<or> LookupEnv ?L (env r) = None"
    unfolding foo_spec_def by code_simp
  have single: "\<not> multiple foo_spec" "\<not> boolean foo_spec"
    by (simp_all add: foo_spec_def)
  have slot: "val (roots ?p) (dest foo_spec) = Inr (RV int_type (VInt 0) True False)"
    by code_simp
  have parse5: "\<forall>v. parseValue ?L (RV int_type v True False) ''5'' = Inr (VInt 5)"
    by (simp add: parseValue_def sample_lib_def sample_ParseValue_def sample_scalar_def
        sample_int_def int_type_def)
  have parse9: "\<forall>v. parseValue ?L (RV int_type v True False) ''9'' = Inr (VInt 9)"
    by (simp add: parseValue_def sample_lib_def sample_ParseValue_def sample_scalar_def
        sample_int_def int_type_def)
  have req: "\<forall>r \<in> set (cmd_specs (cmd ?p)). required r \<longrightarrow> r = foo_spec"
    unfolding foo_spec_def by code_simp
  have sub: "\<not> isFlag ''serve'' \<and> ''serve'' \<noteq> ''--''
      \<and> findSubcommand (cmd_subcommands (curCmd ?s)) ''serve'' = Some serve_cmd
      \<and> turn ?L ?s ''serve'' [] = Inr (?s1, 0)"
    unfolding serve_cmd_def port_spec_def by code_simp
  from environment_then_command_line [OF opt var others single slot parse5 parse9 req,
      of "''serve''" ?s serve_cmd "[]" ?s1 0] sub
  have "(\<exists>s. Parse ?L ?p [] = Inr s \<and> foo_spec \<in> wasPresent s
            \<and> val (dests s) (dest foo_spec) = Inr (RV int_type (VInt 5) True False))"
    and "(\<exists>s. Parse ?L ?p [''--foo'', ''9''] = Inr s \<and> foo_spec \<in> wasPresent s
            \<and> val (dests s) (dest foo_spec) = Inr (RV int_type (VInt 9) True False))"
    and "\<exists>rs. instantiate (dests ?s) (cmd_dest serve_cmd) = Inr rs
          \<and> captureEnvVars ?L rs (cmd_specs serve_cmd) (wasPresent ?s) = Inr (dests ?s1, wasPresent ?s1)"
    by blast+
  then show ?thesis
    by (auto simp: value_after_def present_after_def foo_spec_def args_session_def)
qed

theorem subcommand_option_seeded_on_entry:
  "present_after (sample_lib [(''PORT'', ''80'')]) (args_parser []) [] port_spec = Inr False
   \<and> value_after (sample_lib [(''PORT'', ''80'')]) (args_parser []) []
        \<lparr>root = 0, flds = [''Serve'', ''Port'']\<rparr> = Inr NoValue
   \<and> present_after (sample_lib [(''PORT'', ''80'')]) (args_parser []) [''serve''] port_spec
     = Inr True
   \<and> value_after (sample_lib [(''PORT'', ''80'')]) (args_parser []) [''serve'']
        \<lparr>root = 0, flds = [''Serve'', ''Port'']\<rparr> = Inr (RV int_type (VInt 80) True False)"
  unfolding port_spec_def by code_simp

lemma isFlag_serve [simp]:
  "\<not> isFlag ''serve''" "\<not> isFlag ''launch''" "\<not> isFlag ''8080''" "isFlag ''--port''"
  "cut_at (TrimLeft ''--port'' ''-'') CHR ''='' = (''port'', [])"
  by (simp_all add: isFlag_def HasPrefix_def TrimLeft_def cut_at_def)

lemma findSubcommand_Some: "findSubcommand cs n = Some c \<Longrightarrow> c \<in> set cs \<and> cmd_name c = n"
  by (induction cs) (auto split: if_splits)

text \<open>
  C1. When the root command has a subcommand named "serve" with a required option that
  "--port" resolves to, the options of the two being pairwise different: \<^verbatim>\<open>serve --port 8080\<close> points the destination field of serve at a
  new zero struct, makes serve the current command, adds its options to those in scope and
  leaves port = 8080, without error; \<^verbatim>\<open>serve\<close> alone fails with "--port is required";
  \<^verbatim>\<open>launch\<close>, which names no subcommand, fails with "invalid subcommand: launch".
\<close>

theorem subcommand_dispatch:
  assumes env0: "captureEnvVars L (roots p) (cmd_specs (cmd p)) {} = Inr (rs0, wp0)"
    and sub: "findSubcommand (cmd_subcommands (cmd p)) ''serve'' = Some serve"
    and dis: "distinct (cmd_specs (cmd p) @ cmd_specs serve)"
    and field: "val rs0 (cmd_dest serve) = Inr (RV (PtrT et) old True False)"
    and env1: "captureEnvVars L (store rs0 (cmd_dest serve) (VPtr (Some (zero et))))
                 (cmd_specs serve) wp0 = Inr (rs1, wp1)"
    and opt: "findOption (cmd_specs (cmd p) @ cmd_specs serve) ''port'' = Some port"
    and own: "port \<in> set (cmd_specs serve)" "long port = ''port''" "required port"
      "\<not> multiple port" "\<not> boolean port" "port \<notin> wp1"
    and slot: "val rs1 (dest port) = Inr (RV t v True False)"
    and parse: "parseValue L (RV t v True False) ''8080'' = Inr (VInt 8080)"
    and req: "\<forall>r \<in> set (cmd_specs (cmd p) @ cmd_specs serve). required r \<and> r \<noteq> port \<longrightarrow> r \<in> wp1"
    and none: "findSubcommand (cmd_subcommands (cmd p)) ''launch'' = None"
  shows "(\<exists>s. Parse L p [''serve'', ''--port'', ''8080''] = Inr s
            \<and> curCmd s = serve \<and> specs s = cmd_specs (cmd p) @ cmd_specs serve
            \<and> val (dests s) (dest port) = Inr (RV t (VInt 8080) True False))
       \<and> instantiate rs0 (cmd_dest serve) = Inr (store rs0 (cmd_dest serve) (VPtr (Some (zero et))))
       \<and> val (store rs0 (cmd_dest serve) (VPtr (Some (zero et)))) (cmd_dest serve)
           = Inr (RV (PtrT et) (VPtr (Some (zero et))) True False)
       \<and> Parse L p [''serve''] = Inl (Errorf ''--port is required'')
       \<and> Parse L p [''launch''] = Inl (Errorf ''invalid subcommand: launch'')"
proof -
  let ?s0 = "\<lparr>dests = rs0, curCmd = cmd p, specs = cmd_specs (cmd p), wasPresent = wp0,
              allpositional = False, positionals = []\<rparr>"
  let ?new = "store rs0 (cmd_dest serve) (VPtr (Some (zero et)))"
  let ?s1 = "?s0\<lparr>dests := rs1, specs := cmd_specs (cmd p) @ cmd_specs serve, wasPresent := wp1,
                 curCmd := serve\<rparr>"
  let ?s2 = "?s1\<lparr>wasPresent := insert port wp1, dests := store rs1 (dest port) (VInt 8080)\<rparr>"
  have subs: "cmd_subcommands (cmd p) \<noteq> []"
    using sub by auto
  have inst: "instantiate rs0 (cmd_dest serve) = Inr ?new"
    using field by (simp add: instantiate_def)
  have fresh: "val ?new (cmd_dest serve) = Inr (RV (PtrT et) (VPtr (Some (zero et))) True False)"
    using field by (rule val_store)
  have t1: "turn L ?s0 ''serve'' rest = Inr (?s1, 0)" for rest
    using subs sub inst env1 by (simp add: turn_def enter_def)
  have t2: "turn L ?s1 ''--port'' [''8080''] = Inr (?s2, 1)"
    using opt own slot parse by (simp add: turn_def flag_def assign_def lift_err_def)
  have l3: "loop L ?s0 [''serve'', ''--port'', ''8080''] = Inr ?s2"
    using t1 t2 by simp
  have pos: "\<not> positional port"
    using opt by (simp add: findOption_Some)
  have rq: "check_required (cmd_specs (cmd p) @ cmd_specs serve) (insert port wp1) = None"
    using req by (auto simp: check_required_None)
  have a: "\<exists>s. Parse L p [''serve'', ''--port'', ''8080''] = Inr s
            \<and> curCmd s = serve \<and> specs s = cmd_specs (cmd p) @ cmd_specs serve
            \<and> val (dests s) (dest port) = Inr (RV t (VInt 8080) True False)"
    using env0 l3 rq slot by (simp add: Parse_def process_def drain_none val_store)
  have "check_required (cmd_specs (cmd p) @ cmd_specs serve) wp1
          = Some (Errorf ((if positional port then long port else ''--'' @ long port) @ '' is required''))"
    using own req by (intro check_required_first) auto
  then have miss: "check_required (cmd_specs (cmd p) @ cmd_specs serve) wp1
          = Some (Errorf ''--port is required'')"
    using pos own(2) by simp
  have "loop L ?s0 [''serve''] = Inr ?s1"
    using t1 by simp
  then have b: "Parse L p [''serve''] = Inl (Errorf ''--port is required'')"
    using env0 miss by (simp add: Parse_def process_def drain_none)
  have "turn L ?s0 ''launch'' [] = Inl (Errorf ''invalid subcommand: launch'')"
    using subs none by (simp add: turn_def)
  then have c: "Parse L p [''launch''] = Inl (Errorf ''invalid subcommand: launch'')"
    using env0 by (simp add: Parse_def process_def)
  show ?thesis using a inst fresh b c by blast
qed

theorem subcommand_dispatch_witness:
  "value_after (sample_lib []) (args_parser []) [''serve'', ''--port'', ''8080'']
     \<lparr>root = 0, flds = [''Serve'', ''Port'']\<rparr>
     = Inr (RV int_type (VInt 8080) True False)
   \<and> Parse (sample_lib []) (args_parser []) [''serve''] = Inl (Errorf ''--port is required'')
   \<and> Parse (sample_lib []) (args_parser []) [''launch'']
     = Inl (Errorf ''invalid subcommand: launch'')"
proof -
  let ?L = "sample_lib []" and ?p = "args_parser []"
  let ?rs = "store (roots ?p) (cmd_dest serve_cmd) (VPtr (Some (zero ServeCmd)))"
  have env0: "captureEnvVars ?L (roots ?p) (cmd_specs (cmd ?p)) {} = Inr (roots ?p, {})"
    by code_simp
  have sub: "findSubcommand (cmd_subcommands (cmd ?p)) ''serve'' = Some serve_cmd"
    unfolding serve_cmd_def port_spec_def by code_simp
  have field: "val (roots ?p) (cmd_dest serve_cmd) = Inr (RV (PtrT ServeCmd) (VPtr None) True False)"
    by code_simp
  have env1: "captureEnvVars ?L ?rs (cmd_specs serve_cmd) {} = Inr (?rs, {})"
    by code_simp
  have opt: "findOption (cmd_specs (cmd ?p) @ cmd_specs serve_cmd) ''port'' = Some port_spec"
    unfolding port_spec_def by code_simp
  have own: "port_spec \<in> set (cmd_specs serve_cmd)" "long port_spec = ''port''"
    "required port_spec" "\<not> multiple port_spec" "\<not> boolean port_spec" "port_spec \<notin> {}"
    by (simp_all add: serve_cmd_def port_spec_def)
  have slot: "val ?rs (dest port_spec) = Inr (RV int_type (VInt 0) True False)"
    by code_simp
  have parse: "parseValue ?L (RV int_type (VInt 0) True False) ''8080'' = Inr (VInt 8080)"
    by code_simp
  have req: "\<forall>r \<in> set (cmd_specs (cmd ?p) @ cmd_specs serve_cmd).
               required r \<and> r \<noteq> port_spec \<longrightarrow> r \<in> {}"
    unfolding port_spec_def by code_simp
  have none: "findSubcommand (cmd_subcommands (cmd ?p)) ''launch'' = None"
    by code_simp
  have dis: "distinct (cmd_specs (cmd ?p) @ cmd_specs serve_cmd)"
    by code_simp
  from subcommand_dispatch [OF env0 sub dis field env1 opt own slot parse req none]
  show ?thesis
    by (auto simp: value_after_def port_spec_def)
qed

end
